theory Spec2Isabelle
  imports Complex_Main "HOL-Library.Multiset" "HOL-Library.Sublist"
begin

section \<open>Overview\<close>

text \<open>
  The two parsers of the repository, \<open>CityParser\<close> (\<open>domain/cities.py\<close>) and
  \<open>CargoParserWithToken\<close> (\<open>domain/parsing.py\<close>), with the models of
  \<open>domain/models.py\<close> they use.

  Both run a pool of worker coroutines on one event loop. A coroutine runs alone from
  one suspension point to the next, and the only suspension points of a worker are the
  sleep of its poll and its network calls, so a worker is modelled by what it does
  between two of them (\<open>city_worker\<close>, \<open>cargo_worker\<close>), the event loop by the list of
  the workers it resumes, in order (the schedule), and the network by a function that
  gives the outcome of each request. The statements hold for every schedule and every
  network. A schedule may resume another worker where the real loop would go on with the
  same one (a worker that finds its answer in the cache, or whose request fails before
  it is sent, takes the next item without suspending): the model has every interleaving
  of the program and some more.

  An exception is a value \<open>Inl e\<close>; the exceptions are those that \<open>except Exception\<close>
  catches. A call that does not return within the schedule it is given has the value
  \<open>None\<close>.
\<close>


section \<open>Python values\<close>

text \<open>
  The parsers work on decoded JSON (the result of \<open>resp.json()\<close>) with \<open>.get\<close>,
  truthiness tests and \<open>for\<close> loops. Every operation that raises in Python on a value
  of the wrong kind returns \<open>Inl\<close> here.
\<close>

datatype exn =
    AttributeError
  | TypeError
  | ValueError
  | IndexError
  | ValidationError
  | ClientError
  | Exception string

datatype json =
    JNull
  | JBool bool
  | JNum rat
  | JStr string
  | JArr "json list"
  | JObj "(string \<times> json) list"

text \<open>Python truthiness (\<open>if not x\<close>, \<open>x or []\<close>).\<close>

fun truthy :: "json \<Rightarrow> bool" where
  "truthy JNull = False"
| "truthy (JBool b) = b"
| "truthy (JNum r) = (r \<noteq> 0)"
| "truthy (JStr s) = (s \<noteq> [])"
| "truthy (JArr xs) = (xs \<noteq> [])"
| "truthy (JObj kvs) = (kvs \<noteq> [])"

text \<open>\<open>d.get(key)\<close> on a dict held as an association list: \<open>None\<close> when the key is absent.\<close>

definition dict_get :: "(string \<times> json) list \<Rightarrow> string \<Rightarrow> json" where
  "dict_get kvs k = (case map_of kvs k of None \<Rightarrow> JNull | Some v \<Rightarrow> v)"

text \<open>\<open>d[key] = v\<close>: an existing key keeps its position, a new key goes to the end.\<close>

fun dict_set :: "('k \<times> 'v) list \<Rightarrow> 'k \<Rightarrow> 'v \<Rightarrow> ('k \<times> 'v) list" where
  "dict_set [] k v = [(k, v)]"
| "dict_set ((k', v') # kvs) k v =
     (if k' = k then (k, v) # kvs else (k', v') # dict_set kvs k v)"

text \<open>\<open>x.get(key)\<close> on any value: only a dict has the method.\<close>

fun py_get :: "json \<Rightarrow> string \<Rightarrow> exn + json" where
  "py_get (JObj kvs) k = Inr (dict_get kvs k)"
| "py_get _ k = Inl AttributeError"

text \<open>
  \<open>for item in x\<close>: a list yields its elements, a dict its keys, a string its
  characters; \<open>None\<close>, a bool and a number are not iterable.
\<close>

fun py_iter :: "json \<Rightarrow> exn + json list" where
  "py_iter (JArr xs) = Inr xs"
| "py_iter (JObj kvs) = Inr (map (\<lambda>kv. JStr (fst kv)) kvs)"
| "py_iter (JStr s) = Inr (map (\<lambda>c. JStr [c]) s)"
| "py_iter _ = Inl TypeError"

section \<open>City lookup: \<open>CityParser._extract_city_dict\<close>\<close>

text \<open>
  The body of the \<open>for\<close> loop of \<open>_extract_city_dict\<close>: an item whose \<open>name\<close> differs
  from the queried name is skipped; a matching item overwrites the three keys of
  \<open>city_dict\<close>.
\<close>

fun extract_city_loop :: "string \<Rightarrow> json list \<Rightarrow> (string \<times> json) list \<Rightarrow> exn + (string \<times> json) list" where
  "extract_city_loop city_name [] city_dict = Inr city_dict"
| "extract_city_loop city_name (item # rest) city_dict =
     (case py_get item ''name'' of
        Inl e \<Rightarrow> Inl e
      | Inr n \<Rightarrow>
          if n \<noteq> JStr city_name then extract_city_loop city_name rest city_dict
          else (case py_get item ''uuid'' of
                  Inl e \<Rightarrow> Inl e
                | Inr u \<Rightarrow>
                   (case py_get item ''fullName'' of
                      Inl e \<Rightarrow> Inl e
                    | Inr f \<Rightarrow>
                        extract_city_loop city_name rest
                          (dict_set (dict_set (dict_set city_dict ''name'' (JStr city_name))
                             ''city_uid'' u) ''full_name'' f))))"

definition extract_city_dict :: "json \<Rightarrow> string \<Rightarrow> exn + json" where
  "extract_city_dict city_data city_name =
     (case py_get city_data ''data'' of
        Inl e \<Rightarrow> Inl e
      | Inr raw_city_list \<Rightarrow>
          if \<not> truthy raw_city_list then Inl (Exception ''parsing error'')
          else (case py_iter raw_city_list of
                  Inl e \<Rightarrow> Inl e
                | Inr items \<Rightarrow>
                   (case extract_city_loop city_name items [] of
                      Inl e \<Rightarrow> Inl e
                    | Inr city_dict \<Rightarrow> Inr (JObj city_dict))))"

section \<open>The environment\<close>

text \<open>
  What the program takes from outside the repository is a parameter of the model:
  the remote endpoints (\<open>http\<close>: the outcome of a request, which may depend on all
  requests issued before it; \<open>Inl\<close> is a transport or decoding failure raised by the
  client), the constructor and the string form of \<open>uuid.UUID\<close>, and the validation of a
  model field declared \<open>int | float\<close>.
\<close>

datatype http_request = Get string | Post string "(string \<times> string) list" json

datatype UUID = UUID nat

record env =
  http :: "http_request list \<Rightarrow> http_request \<Rightarrow> exn + json"
  UUID_init :: "json \<Rightarrow> exn + UUID"
  UUID_str :: "UUID \<Rightarrow> string"
  validate_number :: "json \<Rightarrow> rat option"

definition CARGO_PARSER_URL :: string where
  "CARGO_PARSER_URL = ''https://www.cdek.ru/api-lkfl/getTariffInfo''"

definition SERVICE_ID_URL :: string where
  "SERVICE_ID_URL = ''https://www.cdek.ru/api-lkfl/estimateV2''"

text \<open>\<open>config.CARGO_CITY_URL.format(city_name)\<close>.\<close>

definition CARGO_CITY_URL_format :: "string \<Rightarrow> string" where
  "CARGO_CITY_URL_format city_name =
     ''https://www.cdek.ru/api-lkfl/cities/autocomplete?str='' @ city_name @ ''&page=1&perPage=10''"

section \<open>Report models\<close>

text \<open>
  A report is built by keyword arguments. The models keep the default configuration,
  under which a keyword that names no field is ignored and a field that gets no keyword
  keeps its default.
\<close>

datatype kwarg = KInt int | KStrs "string list" | KRefs "nat list"

definition kw_int :: "(string \<times> kwarg) list \<Rightarrow> string \<Rightarrow> int \<Rightarrow> exn + int" where
  "kw_int kwargs name dflt =
     (case map_of kwargs name of
        None \<Rightarrow> Inr dflt
      | Some (KInt n) \<Rightarrow> Inr n
      | Some _ \<Rightarrow> Inl ValidationError)"

definition kw_strs :: "(string \<times> kwarg) list \<Rightarrow> string \<Rightarrow> exn + string list" where
  "kw_strs kwargs name =
     (case map_of kwargs name of
        None \<Rightarrow> Inr []
      | Some (KStrs xs) \<Rightarrow> Inr xs
      | Some _ \<Rightarrow> Inl ValidationError)"

definition kw_refs :: "(string \<times> kwarg) list \<Rightarrow> string \<Rightarrow> exn + nat list" where
  "kw_refs kwargs name =
     (case map_of kwargs name of
        None \<Rightarrow> Inr []
      | Some (KRefs xs) \<Rightarrow> Inr xs
      | Some _ \<Rightarrow> Inl ValidationError)"

record CitiesReport =
  cities_total :: int
  cities_success :: int
  cities_fail :: int
  cities_fail_items :: "string list"

text \<open>The field \<open>cities_fail_items\<close> is \<open>CitiesReport.routes_fail_list\<close> of the source.\<close>

definition CitiesReport_init :: "(string \<times> kwarg) list \<Rightarrow> exn + CitiesReport" where
  "CitiesReport_init kwargs =
     (case kw_int kwargs ''cities_total'' 0 of Inl e \<Rightarrow> Inl e | Inr t \<Rightarrow>
     (case kw_int kwargs ''cities_success'' 0 of Inl e \<Rightarrow> Inl e | Inr sc \<Rightarrow>
     (case kw_int kwargs ''cities_fail'' 0 of Inl e \<Rightarrow> Inl e | Inr fl \<Rightarrow>
     (case kw_strs kwargs ''routes_fail_list'' of Inl e \<Rightarrow> Inl e | Inr l \<Rightarrow>
        Inr \<lparr>cities_total = t, cities_success = sc, cities_fail = fl,
             cities_fail_items = l\<rparr>))))"

record RequestsReport =
  routes_total :: int
  routes_success :: int
  routes_fail :: int
  routes_fail_list :: "nat list"

definition RequestsReport_init :: "(string \<times> kwarg) list \<Rightarrow> exn + RequestsReport" where
  "RequestsReport_init kwargs =
     (case kw_int kwargs ''routes_total'' 0 of Inl e \<Rightarrow> Inl e | Inr t \<Rightarrow>
     (case kw_int kwargs ''routes_success'' 0 of Inl e \<Rightarrow> Inl e | Inr sc \<Rightarrow>
     (case kw_int kwargs ''routes_fail'' 0 of Inl e \<Rightarrow> Inl e | Inr fl \<Rightarrow>
     (case kw_refs kwargs ''routes_fail_list'' of Inl e \<Rightarrow> Inl e | Inr l \<Rightarrow>
        Inr \<lparr>routes_total = t, routes_success = sc, routes_fail = fl,
             routes_fail_list = l\<rparr>))))"

section \<open>The city parser\<close>

text \<open>
  A worker is a coroutine; between two suspension points it runs alone. Its state is
  where it is suspended: in the poll of the queue (\<open>CityPolling\<close>), or in
  \<open>await self._parse_city(city_name)\<close> with the outcome the endpoint will deliver
  (\<open>AwaitParseCity\<close>). \<open>CityCrashed\<close> is a worker ended by an exception raised outside
  its \<open>try\<close> block (\<open>task_done\<close> called too often).
\<close>

datatype city_task = CityPolling | AwaitParseCity string "exn + json" | CityCrashed exn

text \<open>
  The attributes of a \<open>CityParser\<close>, with the queue (\<open>city_queue\<close> the items left,
  \<open>city_unfinished\<close> the counter \<open>join\<close> waits for), the worker tasks of the running
  batch, and the log of the requests sent so far.
\<close>

record CityParser =
  self_cached_cities :: "(string \<times> json) list"
  self_results :: "(string \<times> json) list"
  self_cities_total :: int
  self_cities_success :: int
  self_cities_fail :: int
  self_cities_fail_list :: "string list"
  city_queue :: "string list"
  city_unfinished :: nat
  city_thread_limit :: int
  city_tasks :: "city_task list"
  city_log :: "http_request list"

definition CityParser_init :: "(string \<times> json) list \<Rightarrow> int \<Rightarrow> CityParser" where
  "CityParser_init cached_cities thread_limit =
     \<lparr>self_cached_cities = cached_cities, self_results = [], self_cities_total = 0,
      self_cities_success = 0, self_cities_fail = 0, self_cities_fail_list = [],
      city_queue = [], city_unfinished = 0, city_thread_limit = thread_limit,
      city_tasks = [], city_log = []\<rparr>"

text \<open>\<open>self._queue.task_done()\<close> and the return to the head of the \<open>while\<close> loop.\<close>

definition city_task_done :: "nat \<Rightarrow> CityParser \<Rightarrow> CityParser" where
  "city_task_done w s =
     (if city_unfinished s = 0
      then s\<lparr>city_tasks := (city_tasks s)[w := CityCrashed ValueError]\<rparr>
      else s\<lparr>city_unfinished := city_unfinished s - 1,
             city_tasks := (city_tasks s)[w := CityPolling]\<rparr>)"

text \<open>The two arms of the \<open>try\<close> statement of \<open>CityParser._worker\<close>.\<close>

definition city_success :: "string \<Rightarrow> json \<Rightarrow> CityParser \<Rightarrow> CityParser" where
  "city_success city_name city_dict s =
     s\<lparr>self_results := dict_set (self_results s) city_name city_dict,
       self_cached_cities := dict_set (self_cached_cities s) city_name city_dict,
       self_cities_success := self_cities_success s + 1\<rparr>"

definition city_except :: "string \<Rightarrow> CityParser \<Rightarrow> CityParser" where
  "city_except city_name s =
     s\<lparr>self_cities_fail := self_cities_fail s + 1,
       self_cities_fail_list := self_cities_fail_list s @ [city_name]\<rparr>"

text \<open>
  One run of worker \<open>w\<close> from its suspension point to the next one. A polling worker
  that finds the queue empty sleeps; otherwise it takes the head of the queue, and either
  answers from the cache or sends the request. A worker whose request is answered
  extracts the record and acknowledges the item.
\<close>

definition city_worker :: "env \<Rightarrow> nat \<Rightarrow> CityParser \<Rightarrow> CityParser" where
  "city_worker ev w s =
     (if length (city_tasks s) \<le> w then s
      else case city_tasks s ! w of
        CityCrashed e \<Rightarrow> s
      | CityPolling \<Rightarrow>
         (case city_queue s of
            [] \<Rightarrow> s
          | city_name # rest \<Rightarrow>
              let s1 = s\<lparr>city_queue := rest\<rparr>;
                  cached = dict_get (self_cached_cities s1) city_name
              in if truthy cached
                 then city_task_done w
                        (s1\<lparr>self_results := dict_set (self_results s1) city_name cached,
                            self_cities_success := self_cities_success s1 + 1\<rparr>)
                 else let rq = Get (CARGO_CITY_URL_format city_name)
                      in s1\<lparr>city_tasks := (city_tasks s1)
                                [w := AwaitParseCity city_name (http ev (city_log s1) rq)],
                            city_log := city_log s1 @ [rq]\<rparr>)
      | AwaitParseCity city_name resp \<Rightarrow>
         (case (case resp of
                  Inl e \<Rightarrow> Inl e
                | Inr city_data \<Rightarrow> extract_city_dict city_data city_name) of
            Inr city_dict \<Rightarrow> city_task_done w (city_success city_name city_dict s)
          | Inl e \<Rightarrow> city_task_done w (city_except city_name s)))"

text \<open>
  The event loop: \<open>sched\<close> names the worker that runs next. The main coroutine waits in
  \<open>join\<close> until the counter of unfinished items is zero, and then cancels the workers,
  so no worker runs after that.
\<close>

fun city_loop :: "env \<Rightarrow> nat list \<Rightarrow> CityParser \<Rightarrow> CityParser" where
  "city_loop ev [] s = s"
| "city_loop ev (w # sched) s =
     (if city_unfinished s = 0 then s else city_loop ev sched (city_worker ev w s))"

definition run_city_parsing :: "env \<Rightarrow> nat list \<Rightarrow> string list \<Rightarrow> CityParser \<Rightarrow> CityParser" where
  "run_city_parsing ev sched cities s =
     city_loop ev sched
       (s\<lparr>city_queue := cities, city_unfinished := length cities,
          city_tasks := replicate (nat (min (int (length cities)) (city_thread_limit s)))
                          CityPolling\<rparr>)"

text \<open>
  \<open>get_cities_info\<close> returns \<open>None\<close> when the schedule ends before \<open>join\<close> is passed:
  the call has not returned.
\<close>

definition get_cities_info ::
  "env \<Rightarrow> nat list \<Rightarrow> string list \<Rightarrow> CityParser
     \<Rightarrow> (exn + ((string \<times> json) list \<times> CitiesReport) \<times> CityParser) option" where
  "get_cities_info ev sched cities s =
     (let s1 = run_city_parsing ev sched cities (s\<lparr>self_results := []\<rparr>)
      in if city_unfinished s1 \<noteq> 0 then None
         else Some
           (case CitiesReport_init
                   [(''routes_total'', KInt (int (length cities))),
                    (''routes_success'', KInt (self_cities_success s1)),
                    (''routes_fail'', KInt (self_cities_fail s1)),
                    (''routes_fail_list'', KStrs (self_cities_fail_list s1))] of
              Inl e \<Rightarrow> Inl e
            | Inr report \<Rightarrow> Inr ((self_results s1, report), s1\<lparr>city_tasks := []\<rparr>)))"

section \<open>Request and route models\<close>

record Package =
  pkg_height :: rat
  pkg_length :: rat
  pkg_width :: rat
  pkg_weight :: rat

record ServiceArgument =
  arg_name :: string
  arg_value :: int

record RequestForService =
  svc_alias :: string
  svc_arguments :: "ServiceArgument list"

text \<open>
  \<open>duration_min\<close> and \<open>duration_max\<close> are assigned by the worker without validation,
  so they hold whatever the tariff response carried.
\<close>

record RequestForCargo =
  without_add_services :: int
  service_id :: "UUID option"
  mode :: string
  payer_type :: string
  currency_mark :: string
  sender_city_id :: UUID
  sender_city_name :: string
  receiver_city_id :: UUID
  receiver_city_name :: string
  packages :: "Package list"
  additional_services :: "RequestForService option list"
  duration_min :: json
  duration_max :: json
  cargo_type_descr :: string
  tariff_description :: string

record CalculatedService =
  calc_alias :: string
  calc_original_name :: string
  calc_total_cost :: rat

text \<open>\<open>request\<close> is a reference to the request object, not a copy of it.\<close>

record Route =
  city_from :: string
  city_to :: string
  delivery_price :: rat
  total_cost :: rat
  request :: "nat option"
  services :: "CalculatedService list"
  route_duration_min :: rat
  route_duration_max :: rat
  route_weight :: rat

subsection \<open>Serialisation: \<open>model_dump(by_alias=True)\<close>\<close>

definition Package_dump :: "Package \<Rightarrow> json" where
  "Package_dump p =
     JObj [(''height'', JNum (pkg_height p)), (''length'', JNum (pkg_length p)),
           (''width'', JNum (pkg_width p)), (''weight'', JNum (pkg_weight p))]"

definition ServiceArgument_dump :: "ServiceArgument \<Rightarrow> json" where
  "ServiceArgument_dump a =
     JObj [(''name'', JStr (arg_name a)), (''value'', JNum (of_int (arg_value a)))]"

definition RequestForService_dump :: "RequestForService option \<Rightarrow> json" where
  "RequestForService_dump x =
     (case x of
        None \<Rightarrow> JNull
      | Some sv \<Rightarrow>
          JObj [(''alias'', JStr (svc_alias sv)),
                (''arguments'', JArr (map ServiceArgument_dump (svc_arguments sv)))])"

text \<open>The fields declared with \<open>exclude=True\<close> are left out of the body.\<close>

definition RequestForCargo_dump :: "env \<Rightarrow> RequestForCargo \<Rightarrow> json" where
  "RequestForCargo_dump ev rq =
     JObj [(''withoutAdditionalServices'', JNum (of_int (without_add_services rq))),
           (''serviceId'', (case service_id rq of
                              None \<Rightarrow> JNull
                            | Some u \<Rightarrow> JStr (UUID_str ev u))),
           (''mode'', JStr (mode rq)),
           (''payerType'', JStr (payer_type rq)),
           (''currencyMark'', JStr (currency_mark rq)),
           (''senderCityId'', JStr (UUID_str ev (sender_city_id rq))),
           (''receiverCityId'', JStr (UUID_str ev (receiver_city_id rq))),
           (''packages'', JArr (map Package_dump (packages rq))),
           (''additionalServices'', JArr (map RequestForService_dump (additional_services rq)))]"

text \<open>
  The first lines of \<open>_parse_service_id\<close>: the \<open>RequestForServiceId\<close> model is built
  and serialised. Its field \<open>packages\<close> is declared \<open>tuple[Package]\<close>, a tuple of
  exactly one package, so any other number of packages fails validation.
\<close>

definition RequestForServiceId_body :: "env \<Rightarrow> RequestForCargo \<Rightarrow> exn + json" where
  "RequestForServiceId_body ev rq =
     (if length (packages rq) \<noteq> 1 then Inl ValidationError
      else Inr (JObj [(''payerType'', JStr (payer_type rq)),
                      (''currencyMark'', JStr (currency_mark rq)),
                      (''senderCityId'', JStr (UUID_str ev (sender_city_id rq))),
                      (''receiverCityId'', JStr (UUID_str ev (receiver_city_id rq))),
                      (''packages'', JArr (map Package_dump (packages rq)))]))"

section \<open>Service-id resolution: \<open>CargoParserWithToken._parse_service_id\<close>\<close>

text \<open>
  The inner loop over the tariffs of one group. \<open>None\<close>: the loop ended without a
  \<open>return\<close>; \<open>Some\<close>: the function returned or raised. The two \<open>.get\<close> of the
  condition are on the same item, so the second cannot raise where the first did not,
  and it is read before the test of the first.
\<close>

fun tariffs_loop :: "env \<Rightarrow> RequestForCargo \<Rightarrow> json list \<Rightarrow> (exn + UUID \<times> json \<times> json) option" where
  "tariffs_loop ev rq [] = None"
| "tariffs_loop ev rq (item # rest) =
     (case py_get item ''mode'' of
        Inl e \<Rightarrow> Some (Inl e)
      | Inr m \<Rightarrow>
         (case py_get item ''shortDescription'' of
            Inl e \<Rightarrow> Some (Inl e)
          | Inr sd \<Rightarrow>
              if m = JStr (mode rq) \<and> sd = JStr (tariff_description rq)
              then (case py_get item ''serviceId'' of
                      Inl e \<Rightarrow> Some (Inl e)
                    | Inr sid \<Rightarrow>
                       (case UUID_init ev sid of
                          Inl e \<Rightarrow> Some (Inl e)
                        | Inr u \<Rightarrow>
                           (case py_get item ''durationMin'' of
                              Inl e \<Rightarrow> Some (Inl e)
                            | Inr dmin \<Rightarrow>
                               (case py_get item ''durationMax'' of
                                  Inl e \<Rightarrow> Some (Inl e)
                                | Inr dmax \<Rightarrow> Some (Inr (u, dmin, dmax))))))
              else tariffs_loop ev rq rest))"

text \<open>The outer loop over the groups, and the \<open>raise\<close> that follows it.\<close>

fun groups_loop :: "env \<Rightarrow> RequestForCargo \<Rightarrow> json list \<Rightarrow> exn + UUID \<times> json \<times> json" where
  "groups_loop ev rq [] = Inl (Exception ''service_id not found'')"
| "groups_loop ev rq (outer_list # rest) =
     (case py_get outer_list ''description'' of
        Inl e \<Rightarrow> Inl e
      | Inr d \<Rightarrow>
          if d \<noteq> JStr (cargo_type_descr rq) then groups_loop ev rq rest
          else (case py_get outer_list ''tariffs'' of
                  Inl e \<Rightarrow> Inl e
                | Inr inner_list \<Rightarrow>
                   (case py_iter inner_list of
                      Inl e \<Rightarrow> Inl e
                    | Inr items \<Rightarrow>
                       (case tariffs_loop ev rq items of
                          Some r \<Rightarrow> r
                        | None \<Rightarrow> groups_loop ev rq rest))))"

text \<open>\<open>_parse_service_id\<close> from the decoded response on.\<close>

definition parse_service_id :: "env \<Rightarrow> json \<Rightarrow> RequestForCargo \<Rightarrow> exn + UUID \<times> json \<times> json" where
  "parse_service_id ev data rq =
     (case py_get data ''data'' of
        Inl e \<Rightarrow> Inl e
      | Inr list_of_services \<Rightarrow>
          if \<not> truthy list_of_services then Inl (Exception ''service_id not parsed'')
          else (case py_iter list_of_services of
                  Inl e \<Rightarrow> Inl e
                | Inr groups \<Rightarrow> groups_loop ev rq groups))"

section \<open>Route extraction: \<open>CargoParserWithToken._extract_data_from_resp_dict\<close>\<close>

text \<open>
  The two model constructors validate their fields: a \<open>str\<close> field takes a string
  only, an \<open>int | float\<close> field what the environment's \<open>validate_number\<close> accepts.
\<close>

definition CalculatedService_init :: "env \<Rightarrow> json \<Rightarrow> json \<Rightarrow> json \<Rightarrow> exn + CalculatedService" where
  "CalculatedService_init ev al nm tc =
     (case (al, nm, validate_number ev tc) of
        (JStr a, JStr n, Some c) \<Rightarrow>
          Inr \<lparr>calc_alias = a, calc_original_name = n, calc_total_cost = c\<rparr>
      | _ \<Rightarrow> Inl ValidationError)"

fun services_loop :: "env \<Rightarrow> json list \<Rightarrow> exn + CalculatedService list" where
  "services_loop ev [] = Inr []"
| "services_loop ev (item # rest) =
     (case py_get item ''alias'' of
        Inl e \<Rightarrow> Inl e
      | Inr al \<Rightarrow>
         (case py_get item ''original_name'' of
            Inl e \<Rightarrow> Inl e
          | Inr nm \<Rightarrow>
             (case py_get item ''paymentDetail'' of
                Inl e \<Rightarrow> Inl e
              | Inr pd \<Rightarrow>
                 (case py_get pd ''totalCost'' of
                    Inl e \<Rightarrow> Inl e
                  | Inr tc \<Rightarrow>
                     (case CalculatedService_init ev al nm tc of
                        Inl e \<Rightarrow> Inl e
                      | Inr sv \<Rightarrow>
                         (case services_loop ev rest of
                            Inl e \<Rightarrow> Inl e
                          | Inr svs \<Rightarrow> Inr (sv # svs)))))))"

definition Route_init ::
  "env \<Rightarrow> string \<Rightarrow> string \<Rightarrow> json \<Rightarrow> json \<Rightarrow> nat \<Rightarrow> CalculatedService list
     \<Rightarrow> json \<Rightarrow> json \<Rightarrow> rat \<Rightarrow> exn + Route" where
  "Route_init ev cf ct dp tc rq_ref svs dmin dmax w =
     (case (validate_number ev dp, validate_number ev tc,
            validate_number ev dmin, validate_number ev dmax) of
        (Some dp', Some tc', Some dmin', Some dmax') \<Rightarrow>
          Inr \<lparr>city_from = cf, city_to = ct, delivery_price = dp', total_cost = tc',
               request = Some rq_ref, services = svs, route_duration_min = dmin',
               route_duration_max = dmax', route_weight = w\<rparr>
      | _ \<Rightarrow> Inl ValidationError)"

text \<open>\<open>a\<close> is the reference to the request object and \<open>rq\<close> its present content.\<close>

definition extract_data_from_resp_dict :: "env \<Rightarrow> json \<Rightarrow> nat \<Rightarrow> RequestForCargo \<Rightarrow> exn + Route" where
  "extract_data_from_resp_dict ev cargo_data a rq =
     (case py_get cargo_data ''data'' of
        Inl e \<Rightarrow> Inl e
      | Inr cargo_dict \<Rightarrow>
          if \<not> truthy cargo_dict then Inl (Exception ''parsing error'')
          else (case py_get cargo_dict ''calculatedAdditionalServices'' of
                  Inl e \<Rightarrow> Inl e
                | Inr sl \<Rightarrow>
                   (case py_iter (if truthy sl then sl else JArr []) of
                      Inl e \<Rightarrow> Inl e
                    | Inr service_list \<Rightarrow>
                       (case services_loop ev service_list of
                          Inl e \<Rightarrow> Inl e
                        | Inr calcuated_services \<Rightarrow>
                           (case py_get cargo_dict ''deliveryPrice'' of
                              Inl e \<Rightarrow> Inl e
                            | Inr dp \<Rightarrow>
                               (case py_get cargo_dict ''totalCost'' of
                                  Inl e \<Rightarrow> Inl e
                                | Inr tc \<Rightarrow>
                                   (case packages rq of
                                      [] \<Rightarrow> Inl IndexError
                                    | p # ps \<Rightarrow>
                                        Route_init ev (sender_city_name rq)
                                          (receiver_city_name rq) dp tc a calcuated_services
                                          (duration_min rq) (duration_max rq)
                                          (pkg_weight p))))))))"

section \<open>The cargo parser\<close>

text \<open>
  A worker is suspended in the poll of the queue, in \<open>await self._parse_service_id\<close>
  or in \<open>await self._parse_cargo\<close>, each time for the request object at a reference
  and with the outcome the endpoint will deliver.
\<close>

datatype cargo_task =
    CargoPolling
  | AwaitServiceId nat "exn + json"
  | AwaitCargo nat "exn + json"
  | CargoCrashed exn

text \<open>
  The log of a run: the requests sent to the two endpoints, and a mark at each
  successful service-id resolution.
\<close>

datatype cargo_event =
    ServiceIdCall nat http_request
  | ServiceIdResolved nat UUID
  | CargoCall nat http_request

fun event_requests :: "cargo_event list \<Rightarrow> http_request list" where
  "event_requests [] = []"
| "event_requests (ServiceIdCall a r # evs) = r # event_requests evs"
| "event_requests (CargoCall a r # evs) = r # event_requests evs"
| "event_requests (ServiceIdResolved a u # evs) = event_requests evs"

text \<open>
  The attributes of a \<open>CargoParserWithToken\<close>, the queue, the worker tasks, the log, and
  the store \<open>heap\<close> of the request objects: the queue, the fail list and the routes hold
  references into it, and the worker updates the object in place.
\<close>

record CargoParserWithToken =
  self_cargo_url :: string
  self_service_id_url :: string
  self_thread_limit :: int
  self_token :: string
  self_default_headers :: "(string \<times> string) list"
  self_auth_headers :: "(string \<times> string) list"
  self_routes_total :: int
  self_routes_success :: int
  self_routes_fail :: int
  self_routes_fail_list :: "nat list"
  self_result_list :: "Route list"
  cargo_queue :: "nat list"
  cargo_unfinished :: nat
  cargo_tasks :: "cargo_task list"
  cargo_log :: "cargo_event list"
  heap :: "nat \<Rightarrow> RequestForCargo"

definition CargoParserWithToken_init ::
  "string \<Rightarrow> int \<Rightarrow> string \<Rightarrow> string \<Rightarrow> (string \<times> string) list
     \<Rightarrow> (nat \<Rightarrow> RequestForCargo) \<Rightarrow> CargoParserWithToken" where
  "CargoParserWithToken_init token thread_limit cargo_url service_id_url default_headers h =
     \<lparr>self_cargo_url = cargo_url, self_service_id_url = service_id_url,
      self_thread_limit = thread_limit, self_token = token,
      self_default_headers = default_headers,
      self_auth_headers = dict_set default_headers ''Authorization'' (''Bearer '' @ token),
      self_routes_total = 0, self_routes_success = 0, self_routes_fail = 0,
      self_routes_fail_list = [], self_result_list = [],
      cargo_queue = [], cargo_unfinished = 0, cargo_tasks = [], cargo_log = [], heap = h\<rparr>"

definition cargo_task_done :: "nat \<Rightarrow> CargoParserWithToken \<Rightarrow> CargoParserWithToken" where
  "cargo_task_done w s =
     (if cargo_unfinished s = 0
      then s\<lparr>cargo_tasks := (cargo_tasks s)[w := CargoCrashed ValueError]\<rparr>
      else s\<lparr>cargo_unfinished := cargo_unfinished s - 1,
             cargo_tasks := (cargo_tasks s)[w := CargoPolling]\<rparr>)"

text \<open>The \<open>except Exception\<close> arm of \<open>CargoParserWithToken._worker\<close>.\<close>

definition cargo_except :: "nat \<Rightarrow> CargoParserWithToken \<Rightarrow> CargoParserWithToken" where
  "cargo_except a s =
     s\<lparr>self_routes_fail := self_routes_fail s + 1,
       self_routes_fail_list := self_routes_fail_list s @ [a]\<rparr>"

text \<open>The end of the \<open>try\<close> arm: the route is appended and counted.\<close>

definition cargo_success :: "Route \<Rightarrow> CargoParserWithToken \<Rightarrow> CargoParserWithToken" where
  "cargo_success route s =
     s\<lparr>self_result_list := self_result_list s @ [route],
       self_routes_success := self_routes_success s + 1\<rparr>"

text \<open>
  The middle of the \<open>try\<close> arm, run when the tariff response has been parsed: the
  request object is updated in place, serialised, and sent to the price endpoint.
\<close>

definition cargo_send_price ::
  "env \<Rightarrow> nat \<Rightarrow> nat \<Rightarrow> UUID \<times> json \<times> json \<Rightarrow> CargoParserWithToken \<Rightarrow> CargoParserWithToken" where
  "cargo_send_price ev w a data_tuple s =
     (case data_tuple of (sid, dmin, dmax) \<Rightarrow>
        let rq = (heap s a)\<lparr>service_id := Some sid, duration_min := dmin, duration_max := dmax\<rparr>;
            body = RequestForCargo_dump ev rq;
            r = Post (self_cargo_url s) (self_auth_headers s) body;
            lg = cargo_log s @ [ServiceIdResolved a sid]
        in s\<lparr>heap := (heap s)(a := rq),
             cargo_tasks := (cargo_tasks s)[w := AwaitCargo a (http ev (event_requests lg) r)],
             cargo_log := lg @ [CargoCall a r]\<rparr>)"

text \<open>One run of worker \<open>w\<close> from its suspension point to the next one.\<close>

definition cargo_worker :: "env \<Rightarrow> nat \<Rightarrow> CargoParserWithToken \<Rightarrow> CargoParserWithToken" where
  "cargo_worker ev w s =
     (if length (cargo_tasks s) \<le> w then s
      else case cargo_tasks s ! w of
        CargoCrashed e \<Rightarrow> s
      | CargoPolling \<Rightarrow>
         (case cargo_queue s of
            [] \<Rightarrow> s
          | a # rest \<Rightarrow>
              let s1 = s\<lparr>cargo_queue := rest\<rparr>
              in (case RequestForServiceId_body ev (heap s1 a) of
                    Inl e \<Rightarrow> cargo_task_done w (cargo_except a s1)
                  | Inr body \<Rightarrow>
                      let r = Post (self_service_id_url s1) [] body
                      in s1\<lparr>cargo_tasks := (cargo_tasks s1)
                                [w := AwaitServiceId a
                                        (http ev (event_requests (cargo_log s1)) r)],
                            cargo_log := cargo_log s1 @ [ServiceIdCall a r]\<rparr>))
      | AwaitServiceId a resp \<Rightarrow>
         (case (case resp of
                  Inl e \<Rightarrow> Inl e
                | Inr data \<Rightarrow> parse_service_id ev data (heap s a)) of
            Inl e \<Rightarrow> cargo_task_done w (cargo_except a s)
          | Inr data_tuple \<Rightarrow> cargo_send_price ev w a data_tuple s)
      | AwaitCargo a resp \<Rightarrow>
         (case (case resp of
                  Inl e \<Rightarrow> Inl e
                | Inr cargo_data \<Rightarrow> extract_data_from_resp_dict ev cargo_data a (heap s a)) of
            Inl e \<Rightarrow> cargo_task_done w (cargo_except a s)
          | Inr route \<Rightarrow> cargo_task_done w (cargo_success route s)))"

fun cargo_loop :: "env \<Rightarrow> nat list \<Rightarrow> CargoParserWithToken \<Rightarrow> CargoParserWithToken" where
  "cargo_loop ev [] s = s"
| "cargo_loop ev (w # sched) s =
     (if cargo_unfinished s = 0 then s else cargo_loop ev sched (cargo_worker ev w s))"

definition run_cargo_parsing ::
  "env \<Rightarrow> nat list \<Rightarrow> nat list \<Rightarrow> CargoParserWithToken \<Rightarrow> CargoParserWithToken" where
  "run_cargo_parsing ev sched cargo_requests s =
     cargo_loop ev sched
       (s\<lparr>cargo_queue := cargo_requests, cargo_unfinished := length cargo_requests,
          cargo_tasks := replicate (nat (min (int (length cargo_requests)) (self_thread_limit s)))
                           CargoPolling\<rparr>)"

text \<open>
  \<open>retrieve_data\<close> returns \<open>None\<close> when the schedule ends before \<open>join\<close> is passed: the
  call has not returned.
\<close>

definition retrieve_data ::
  "env \<Rightarrow> nat list \<Rightarrow> nat list \<Rightarrow> CargoParserWithToken
     \<Rightarrow> (exn + (Route list \<times> RequestsReport) \<times> CargoParserWithToken) option" where
  "retrieve_data ev sched cargo_requests s =
     (let s1 = run_cargo_parsing ev sched cargo_requests s
      in if cargo_unfinished s1 \<noteq> 0 then None
         else Some
           (case RequestsReport_init
                   [(''routes_total'', KInt (int (length cargo_requests))),
                    (''routes_success'', KInt (self_routes_success s1)),
                    (''routes_fail'', KInt (self_routes_fail s1)),
                    (''routes_fail_list'', KRefs (self_routes_fail_list s1))] of
              Inl e \<Rightarrow> Inl e
            | Inr report \<Rightarrow> Inr ((self_result_list s1, report), s1\<lparr>cargo_tasks := []\<rparr>)))"


section \<open>Notions used in the statements\<close>

text \<open>What a call returned, and the parser it left behind.\<close>

definition returned :: "(exn + 'a \<times> 's) option \<Rightarrow> 'a option" where
  "returned x = (case x of Some (Inr (r, s)) \<Rightarrow> Some r | _ \<Rightarrow> None)"

definition left_behind :: "(exn + 'a \<times> 's) option \<Rightarrow> 's option" where
  "left_behind x = (case x of Some (Inr (r, s)) \<Rightarrow> Some s | _ \<Rightarrow> None)"

definition is_dict :: "json \<Rightarrow> bool" where
  "is_dict x = (case x of JObj kvs \<Rightarrow> True | _ \<Rightarrow> False)"

text \<open>The value under a key of a dict, \<open>None\<close> when the key is absent.\<close>

definition field :: "json \<Rightarrow> string \<Rightarrow> json" where
  "field x k = (case py_get x k of Inl e \<Rightarrow> JNull | Inr v \<Rightarrow> v)"

text \<open>A candidate of an autocomplete response whose name is exactly the queried name.\<close>

definition is_candidate :: "string \<Rightarrow> json \<Rightarrow> bool" where
  "is_candidate city_name item = (py_get item ''name'' = Inr (JStr city_name))"

text \<open>The record made from one candidate.\<close>

definition city_record :: "string \<Rightarrow> json \<Rightarrow> (string \<times> json) list" where
  "city_record city_name item =
     [(''name'', JStr city_name), (''city_uid'', field item ''uuid''),
      (''full_name'', field item ''fullName'')]"

text \<open>
  Every record in the results that is not empty is the record the cache holds for the
  same name.
\<close>

definition results_cached :: "CityParser \<Rightarrow> bool" where
  "results_cached s =
     (\<forall>n. truthy (dict_get (self_results s) n) \<longrightarrow>
           dict_get (self_cached_cities s) n = dict_get (self_results s) n)"

text \<open>
  A run in which every queued name has a non-empty cached record and no worker waits
  for the network: \<open>c\<close> is the cache, \<open>l\<close> the log and \<open>names\<close> the batch.
\<close>

definition all_cached ::
  "(string \<times> json) list \<Rightarrow> http_request list \<Rightarrow> string list \<Rightarrow> CityParser \<Rightarrow> bool" where
  "all_cached c l names s =
     (self_cached_cities s = c \<and> city_log s = l
      \<and> (\<forall>n \<in> set (city_queue s). truthy (dict_get c n))
      \<and> (\<forall>t \<in> set (city_tasks s). t = CityPolling)
      \<and> city_unfinished s = length (city_queue s)
      \<and> (\<forall>n \<in> set names. n \<in> set (city_queue s)
                            \<or> dict_get (self_results s) n = dict_get c n))"

subsection \<open>The tariff response, in the words of the specification\<close>

text \<open>
  A group matches when its description is the request's cargo-type descriptor; a tariff
  matches when its mode is the request's mode and its short description is the request's
  tariff descriptor. \<open>first_tariff\<close> is the first matching tariff among the tariffs of
  the matching groups, in the order of the response.
\<close>

definition group_matches :: "RequestForCargo \<Rightarrow> json \<Rightarrow> bool" where
  "group_matches rq g = (field g ''description'' = JStr (cargo_type_descr rq))"

definition tariff_matches :: "RequestForCargo \<Rightarrow> json \<Rightarrow> bool" where
  "tariff_matches rq t =
     (field t ''mode'' = JStr (mode rq)
      \<and> field t ''shortDescription'' = JStr (tariff_description rq))"

definition tariffs_of :: "json \<Rightarrow> json list" where
  "tariffs_of g = (case field g ''tariffs'' of JArr ts \<Rightarrow> ts | _ \<Rightarrow> [])"

definition first_tariff :: "RequestForCargo \<Rightarrow> json list \<Rightarrow> json option" where
  "first_tariff rq groups =
     find (tariff_matches rq) (concat (map tariffs_of (filter (group_matches rq) groups)))"

text \<open>What \<open>_parse_service_id\<close> makes of one tariff.\<close>

definition tariff_result :: "env \<Rightarrow> json \<Rightarrow> exn + UUID \<times> json \<times> json" where
  "tariff_result ev t =
     (case UUID_init ev (field t ''serviceId'') of
        Inl e \<Rightarrow> Inl e
      | Inr u \<Rightarrow> Inr (u, field t ''durationMin'', field t ''durationMax''))"

text \<open>
  The shape of a tariff response: a list of groups, each a dict whose \<open>tariffs\<close> is a
  list of dicts.
\<close>

definition group_shape :: "json \<Rightarrow> bool" where
  "group_shape g =
     (is_dict g \<and> (case field g ''tariffs'' of JArr ts \<Rightarrow> list_all is_dict ts | _ \<Rightarrow> False))"

definition tariff_shape :: "json list \<Rightarrow> bool" where
  "tariff_shape groups = list_all group_shape groups"

subsection \<open>Accounting of a cargo run\<close>

text \<open>The outcome of the part of the \<open>try\<close> arm that follows an answer of an endpoint.\<close>

definition service_id_outcome :: "env \<Rightarrow> exn + json \<Rightarrow> RequestForCargo \<Rightarrow> exn + UUID \<times> json \<times> json" where
  "service_id_outcome ev resp rq =
     (case resp of Inl e \<Rightarrow> Inl e | Inr data \<Rightarrow> parse_service_id ev data rq)"

definition cargo_outcome :: "env \<Rightarrow> exn + json \<Rightarrow> nat \<Rightarrow> RequestForCargo \<Rightarrow> exn + Route" where
  "cargo_outcome ev resp a rq =
     (case resp of Inl e \<Rightarrow> Inl e | Inr cargo_data \<Rightarrow> extract_data_from_resp_dict ev cargo_data a rq)"

text \<open>The request a suspended worker holds, and the requests held by all workers.\<close>

fun task_item :: "cargo_task \<Rightarrow> nat list" where
  "task_item (AwaitServiceId a r) = [a]"
| "task_item (AwaitCargo a r) = [a]"
| "task_item t = []"

definition in_flight :: "CargoParserWithToken \<Rightarrow> nat list" where
  "in_flight s = concat (map task_item (cargo_tasks s))"

fun crashed :: "cargo_task \<Rightarrow> bool" where
  "crashed (CargoCrashed e) = True"
| "crashed t = False"

text \<open>
  The counter that \<open>join\<close> waits for counts the requests still queued or held by a
  worker, and no worker has died.
\<close>

definition cargo_inv :: "CargoParserWithToken \<Rightarrow> bool" where
  "cargo_inv s =
     (cargo_unfinished s = length (cargo_queue s) + length (in_flight s)
      \<and> \<not> list_ex crashed (cargo_tasks s))"

text \<open>
  Where every request is: queued, held by a worker, in the fail list, or the request of
  a route in the result list.
\<close>

definition accounted :: "CargoParserWithToken \<Rightarrow> nat option multiset" where
  "accounted s =
     mset (map Some (cargo_queue s @ in_flight s @ self_routes_fail_list s))
     + mset (map request (self_result_list s))"

text \<open>
  The two counters move with the two lists, and together with the counter of unfinished
  requests they keep their sum.
\<close>

definition counted :: "CargoParserWithToken \<Rightarrow> int \<times> int \<times> int" where
  "counted s =
     (self_routes_success s - int (length (self_result_list s)),
      self_routes_fail s - int (length (self_routes_fail_list s)),
      self_routes_success s + self_routes_fail s + int (cargo_unfinished s))"

text \<open>The steps a worker still has to make for the request it holds.\<close>

fun task_work :: "cargo_task \<Rightarrow> nat" where
  "task_work (AwaitServiceId a r) = 2"
| "task_work (AwaitCargo a r) = 1"
| "task_work t = 0"

definition work :: "CargoParserWithToken \<Rightarrow> nat" where
  "work s = 3 * length (cargo_queue s) + sum_list (map task_work (cargo_tasks s))"

text \<open>
  A fair schedule is a sequence of rounds, and in every round each of the \<open>k\<close> workers
  runs at least once.
\<close>

definition fair_round :: "nat \<Rightarrow> nat list \<Rightarrow> bool" where
  "fair_round k r = list_all (\<lambda>w. w \<in> set r) [0..<k]"

definition fair_rounds :: "nat \<Rightarrow> nat list list \<Rightarrow> bool" where
  "fair_rounds k rs = list_all (fair_round k) rs"

subsection \<open>The log of a cargo run\<close>

text \<open>The body of a request carries the service id \<open>u\<close>, as a string.\<close>

definition carries_service_id :: "env \<Rightarrow> UUID \<Rightarrow> http_request \<Rightarrow> bool" where
  "carries_service_id ev u r =
     (case r of
        Get url \<Rightarrow> False
      | Post url hs body \<Rightarrow> py_get body ''serviceId'' = Inr (JStr (UUID_str ev u)))"

text \<open>
  Every price call in the log stands right after the mark of a successful service-id
  resolution for the same request, and carries the service id resolved there.
\<close>

fun resolved_before_price :: "env \<Rightarrow> cargo_event list \<Rightarrow> bool" where
  "resolved_before_price ev [] = True"
| "resolved_before_price ev (ServiceIdCall a r # evs) = resolved_before_price ev evs"
| "resolved_before_price ev (ServiceIdResolved a u # CargoCall b r # evs) =
     (b = a \<and> carries_service_id ev u r \<and> resolved_before_price ev evs)"
| "resolved_before_price ev (ServiceIdResolved a u # evs) = False"
| "resolved_before_price ev (CargoCall b r # evs) = False"

subsection \<open>Two calls on one parser\<close>

text \<open>
  \<open>retrieve_data\<close> called twice in a row on the same parser: what the first and the
  second call return, or \<open>None\<close> when one of them does not return.
\<close>

definition retrieve_data_twice ::
  "env \<Rightarrow> nat list \<Rightarrow> nat list \<Rightarrow> env \<Rightarrow> nat list \<Rightarrow> nat list \<Rightarrow> CargoParserWithToken
     \<Rightarrow> ((Route list \<times> RequestsReport) \<times> (Route list \<times> RequestsReport)) option" where
  "retrieve_data_twice ev1 sched1 batch1 ev2 sched2 batch2 s =
     (case retrieve_data ev1 sched1 batch1 s of
        Some (Inr (r1, s1)) \<Rightarrow>
          (case retrieve_data ev2 sched2 batch2 s1 of
             Some (Inr (r2, s2)) \<Rightarrow> Some (r1, r2)
           | _ \<Rightarrow> None)
      | _ \<Rightarrow> None)"


section \<open>Concrete environments and inputs\<close>

text \<open>
  An autocomplete endpoint that knows Moscow: asked for Moscow it answers with Moscow
  and a namesake, asked for anything else with the nearest name it has.
\<close>

definition moscow_response :: json where
  "moscow_response =
     JObj [(''data'', JArr
       [JObj [(''name'', JStr ''Moscow''), (''uuid'', JStr ''01581370-81f3-4322-9a28-3418adfabd97''),
              (''fullName'', JStr ''Moscow, Russia'')],
        JObj [(''name'', JStr ''Moscow Mills''), (''uuid'', JStr ''7d5e0ecb-22b6-4d32-8b0f-0f6f7c4c6d11''),
              (''fullName'', JStr ''Moscow Mills, USA'')]])]"

definition nearest_response :: json where
  "nearest_response =
     JObj [(''data'', JArr
       [JObj [(''name'', JStr ''Unionville''), (''uuid'', JStr ''3b1c5c0e-6f0a-4b0b-9f43-6f3d2f0f8a52''),
              (''fullName'', JStr ''Unionville, USA'')]])]"

definition city_endpoint :: "http_request list \<Rightarrow> http_request \<Rightarrow> exn + json" where
  "city_endpoint history rq =
     (if rq = Get (CARGO_CITY_URL_format ''Moscow'') then Inr moscow_response
      else Inr nearest_response)"

definition city_env :: env where
  "city_env = \<lparr>http = city_endpoint, UUID_init = (\<lambda>x. Inl ValueError),
               UUID_str = (\<lambda>u. []), validate_number = (\<lambda>x. None)\<rparr>"

text \<open>Two calls in a row on one parser and one cache, for a single name.\<close>

definition resolve_twice :: "env \<Rightarrow> string \<Rightarrow> CityParser option" where
  "resolve_twice ev city_name =
     (case get_cities_info ev [0, 0] [city_name] (CityParser_init [] 10) of
        Some (Inr (r, s1)) \<Rightarrow> left_behind (get_cities_info ev [0, 0] [city_name] s1)
      | _ \<Rightarrow> None)"

text \<open>The record of Moscow, and the parser a first call for Moscow leaves behind.\<close>

definition moscow_record :: json where
  "moscow_record =
     JObj [(''name'', JStr ''Moscow''),
           (''city_uid'', JStr ''01581370-81f3-4322-9a28-3418adfabd97''),
           (''full_name'', JStr ''Moscow, Russia'')]"

definition moscow_parser :: CityParser where
  "moscow_parser =
     \<lparr>self_cached_cities = [(''Moscow'', moscow_record)],
      self_results = [(''Moscow'', moscow_record)], self_cities_total = 0,
      self_cities_success = 1, self_cities_fail = 0, self_cities_fail_list = [],
      city_queue = [], city_unfinished = 0, city_thread_limit = 10,
      city_tasks = [], city_log = [Get (CARGO_CITY_URL_format ''Moscow'')]\<rparr>"

definition no_counts :: CitiesReport where
  "no_counts = \<lparr>cities_total = 0, cities_success = 0, cities_fail = 0, cities_fail_items = []\<rparr>"

subsection \<open>A cargo request and its endpoints\<close>

definition uuid_table :: "(string \<times> nat) list" where
  "uuid_table =
     [(''01581370-81f3-4322-9a28-3418adfabd97'', 1),
      (''5e6f0a2c-9d2b-4c59-8a53-1b0b1a2f7c11'', 2),
      (''a1b2c3d4-0000-4000-8000-000000000003'', 3),
      (''a1b2c3d4-0000-4000-8000-000000000004'', 4)]"

definition uuid_of_json :: "json \<Rightarrow> exn + UUID" where
  "uuid_of_json x =
     (case x of
        JStr s \<Rightarrow> (case map_of uuid_table s of None \<Rightarrow> Inl ValueError | Some n \<Rightarrow> Inr (UUID n))
      | _ \<Rightarrow> Inl TypeError)"

definition uuid_to_string :: "UUID \<Rightarrow> string" where
  "uuid_to_string u =
     (case u of UUID n \<Rightarrow>
        (case find (\<lambda>kv. snd kv = n) uuid_table of None \<Rightarrow> [] | Some kv \<Rightarrow> fst kv))"

definition number_of_json :: "json \<Rightarrow> rat option" where
  "number_of_json x = (case x of JNum r \<Rightarrow> Some r | _ \<Rightarrow> None)"

definition tariff_groups :: "json list" where
  "tariff_groups =
     [JObj [(''description'', JStr ''Parcel''),
            (''tariffs'', JArr
               [JObj [(''mode'', JStr ''HOME-HOME''), (''shortDescription'', JStr ''16:00''),
                      (''serviceId'', JStr ''a1b2c3d4-0000-4000-8000-000000000004''),
                      (''durationMin'', JNum 5), (''durationMax'', JNum 7)]])],
      JObj [(''description'', JStr ''Express''),
            (''tariffs'', JArr
               [JObj [(''mode'', JStr ''HOME-HOME''), (''shortDescription'', JStr ''18:00''),
                      (''serviceId'', JStr ''a1b2c3d4-0000-4000-8000-000000000004''),
                      (''durationMin'', JNum 2), (''durationMax'', JNum 3)],
                JObj [(''mode'', JStr ''HOME-HOME''), (''shortDescription'', JStr ''16:00''),
                      (''serviceId'', JStr ''a1b2c3d4-0000-4000-8000-000000000003''),
                      (''durationMin'', JNum 1), (''durationMax'', JNum 2)]])]]"

definition tariff_response :: json where
  "tariff_response = JObj [(''data'', JArr tariff_groups)]"

definition price_response :: json where
  "price_response =
     JObj [(''data'', JObj
       [(''deliveryPrice'', JNum 500), (''totalCost'', JNum 550),
        (''calculatedAdditionalServices'', JArr
           [JObj [(''alias'', JStr ''insurance''), (''original_name'', JStr ''Insurance''),
                  (''paymentDetail'', JObj [(''totalCost'', JNum 50)])]])])]"

definition cargo_endpoint :: "http_request list \<Rightarrow> http_request \<Rightarrow> exn + json" where
  "cargo_endpoint history rq =
     (case rq of
        Get url \<Rightarrow> Inl ClientError
      | Post url hs body \<Rightarrow>
          if url = SERVICE_ID_URL then Inr tariff_response
          else if url = CARGO_PARSER_URL then Inr price_response
          else Inl ClientError)"

definition cargo_env :: env where
  "cargo_env = \<lparr>http = cargo_endpoint, UUID_init = uuid_of_json,
                UUID_str = uuid_to_string, validate_number = number_of_json\<rparr>"

text \<open>The same, with both endpoints out of reach.\<close>

definition down_env :: env where
  "down_env = \<lparr>http = (\<lambda>history rq. Inl ClientError), UUID_init = uuid_of_json,
               UUID_str = uuid_to_string, validate_number = number_of_json\<rparr>"

definition express_request :: RequestForCargo where
  "express_request =
     \<lparr>without_add_services = 0, service_id = None, mode = ''HOME-HOME'',
      payer_type = ''sender'', currency_mark = ''RUB'',
      sender_city_id = UUID 1, sender_city_name = ''Moscow'',
      receiver_city_id = UUID 2, receiver_city_name = ''Kazan'',
      packages = [\<lparr>pkg_height = 9, pkg_length = 17, pkg_width = 12, pkg_weight = 1 / 2\<rparr>],
      additional_services = [], duration_min = JNull, duration_max = JNull,
      cargo_type_descr = ''Express'', tariff_description = ''16:00''\<rparr>"

text \<open>A fresh parser over a store in which every reference holds the express request.\<close>

definition fresh_parser :: CargoParserWithToken where
  "fresh_parser =
     CargoParserWithToken_init ''secret'' 10 CARGO_PARSER_URL SERVICE_ID_URL []
       (\<lambda>a. express_request)"

text \<open>The route the endpoints of \<open>cargo_env\<close> give for the express request at \<open>a\<close>.\<close>

definition express_route :: "nat \<Rightarrow> Route" where
  "express_route a =
     \<lparr>city_from = ''Moscow'', city_to = ''Kazan'', delivery_price = 500, total_cost = 550,
      request = Some a,
      services = [\<lparr>calc_alias = ''insurance'', calc_original_name = ''Insurance'',
                   calc_total_cost = 50\<rparr>],
      route_duration_min = 1, route_duration_max = 2, route_weight = 1 / 2\<rparr>"

text \<open>
  A parser with one worker that has sent the tariff request for the request at
  reference 0 and waits for the answer, and the price request that follows.
\<close>

definition awaiting_tariffs :: CargoParserWithToken where
  "awaiting_tariffs =
     cargo_worker cargo_env 0
       (fresh_parser\<lparr>cargo_queue := [0], cargo_unfinished := 1, cargo_tasks := [CargoPolling]\<rparr>)"

definition price_request :: http_request where
  "price_request =
     Post CARGO_PARSER_URL [(''Authorization'', ''Bearer secret'')]
       (RequestForCargo_dump cargo_env
          (express_request\<lparr>service_id := Some (UUID 3), duration_min := JNum 1,
                            duration_max := JNum 2\<rparr>))"

text \<open>
  Endpoints of which the very first request fails in transport, a parser with two
  workers that both wait for a tariff answer (the first one will get the failure), and a
  parser about to take a request that has no package.
\<close>

definition flaky_env :: env where
  "flaky_env =
     \<lparr>http = (\<lambda>history rq. if history = [] then Inl ClientError else cargo_endpoint history rq),
      UUID_init = uuid_of_json, UUID_str = uuid_to_string, validate_number = number_of_json\<rparr>"

definition one_failing :: CargoParserWithToken where
  "one_failing =
     cargo_worker flaky_env 1
       (cargo_worker flaky_env 0
          (fresh_parser\<lparr>cargo_queue := [0, 1], cargo_unfinished := 2,
                         cargo_tasks := [CargoPolling, CargoPolling]\<rparr>))"

definition no_package :: CargoParserWithToken where
  "no_package =
     fresh_parser\<lparr>heap := (\<lambda>a. express_request\<lparr>packages := []\<rparr>), cargo_queue := [0, 1],
                   cargo_unfinished := 2, cargo_tasks := [CargoPolling, CargoPolling]\<rparr>"

definition six_rounds :: "nat list list" where
  "six_rounds = [[0, 1], [0, 1], [0, 1], [0, 1], [0, 1], [0, 1]]"


section \<open>City extraction\<close>

lemma py_get_dict: "is_dict x \<Longrightarrow> py_get x k = Inr (field x k)"
  by (cases x) (simp_all add: is_dict_def field_def)

lemma py_get_not_dict: "\<not> is_dict x \<Longrightarrow> py_get x k = Inl AttributeError"
  by (cases x) (simp_all add: is_dict_def)

lemma extract_city_loop_bad:
  "\<exists>x \<in> set items. \<not> is_dict x \<Longrightarrow> extract_city_loop n items d = Inl AttributeError"
proof (induction items arbitrary: d)
  case Nil
  then show ?case by simp
next
  case (Cons x xs)
  show ?case
  proof (cases "is_dict x")
    case False
    then show ?thesis by (simp add: py_get_not_dict)
  next
    case True
    with Cons.prems have "\<exists>x \<in> set xs. \<not> is_dict x" by auto
    then show ?thesis using True Cons.IH by (simp add: py_get_dict)
  qed
qed

lemma extract_city_loop_none:
  "\<forall>x \<in> set items. is_dict x \<Longrightarrow> filter (is_candidate n) items = [] \<Longrightarrow>
   extract_city_loop n items d = Inr d"
  by (induction items arbitrary: d) (auto simp: py_get_dict is_candidate_def split: if_splits)

lemma extract_city_loop_last:
  "\<forall>x \<in> set items. is_dict x \<Longrightarrow> filter (is_candidate n) items \<noteq> [] \<Longrightarrow>
   d = [] \<or> (\<exists>y. d = city_record n y) \<Longrightarrow>
   extract_city_loop n items d = Inr (city_record n (last (filter (is_candidate n) items)))"
proof (induction items arbitrary: d)
  case Nil
  then show ?case by simp
next
  case (Cons x xs)
  have dx: "is_dict x" and dxs: "\<forall>x \<in> set xs. is_dict x" using Cons.prems(1) by auto
  show ?case
  proof (cases "is_candidate n x")
    case False
    then have "filter (is_candidate n) xs \<noteq> []" using Cons.prems(2) by simp
    from Cons.IH[OF dxs this Cons.prems(3)] False dx show ?thesis
      by (simp add: py_get_dict is_candidate_def)
  next
    case True
    let ?d' = "dict_set (dict_set (dict_set d ''name'' (JStr n)) ''city_uid'' (field x ''uuid''))
                 ''full_name'' (field x ''fullName'')"
    have d': "?d' = city_record n x"
      using Cons.prems(3) by (auto simp: city_record_def)
    have step: "extract_city_loop n (x # xs) d = extract_city_loop n xs (city_record n x)"
      using True dx d' by (simp add: py_get_dict is_candidate_def)
    show ?thesis
    proof (cases "filter (is_candidate n) xs = []")
      case True
      then show ?thesis using step \<open>is_candidate n x\<close> extract_city_loop_none[OF dxs True]
        by simp
    next
      case False
      have "extract_city_loop n xs (city_record n x) =
            Inr (city_record n (last (filter (is_candidate n) xs)))"
        by (rule Cons.IH[OF dxs False]) auto
      then show ?thesis using step False \<open>is_candidate n x\<close> by simp
    qed
  qed
qed

text \<open>
  C9. When the candidate list of an autocomplete response holds two or more candidates
  whose \<open>name\<close> is exactly the queried city name, the record produced by
  \<open>_extract_city_dict\<close> takes \<open>uuid\<close> and \<open>fullName\<close> from the last of them: each later
  match overwrites the earlier one. (A list with an entry that is no dict raises
  instead, whatever its candidates.)
\<close>

theorem extract_city_dict_last_match:
  assumes "py_get city_data ''data'' = Inr (JArr items)"
    and "2 \<le> length (filter (is_candidate city_name) items)"
  shows "extract_city_dict city_data city_name =
           (if \<forall>x \<in> set items. is_dict x
            then Inr (JObj (city_record city_name (last (filter (is_candidate city_name) items))))
            else Inl AttributeError)"
proof -
  from assms(2) have ne: "filter (is_candidate city_name) items \<noteq> []" by auto
  then have ine: "items \<noteq> []" by auto
  show ?thesis
  proof (cases "\<forall>x \<in> set items. is_dict x")
    case True
    then show ?thesis
      using assms(1) ine extract_city_loop_last[OF True ne, of "[]"]
      by (simp add: extract_city_dict_def)
  next
    case False
    then have "\<exists>x \<in> set items. \<not> is_dict x" by simp
    from extract_city_loop_bad[OF this] False assms(1) ine show ?thesis
      by (simp add: extract_city_dict_def)
  qed
qed

theorem extract_city_dict_last_match_witness:
  "py_get (JObj [(''data'', JArr
       [JObj [(''name'', JStr ''Moscow''), (''uuid'', JStr ''u1''), (''fullName'', JStr ''A'')],
        JObj [(''name'', JStr ''Moscow Oblast''), (''uuid'', JStr ''u2''), (''fullName'', JStr ''B'')],
        JObj [(''name'', JStr ''Moscow''), (''uuid'', JStr ''u3''), (''fullName'', JStr ''C'')]])])
     ''data'' = Inr (JArr
       [JObj [(''name'', JStr ''Moscow''), (''uuid'', JStr ''u1''), (''fullName'', JStr ''A'')],
        JObj [(''name'', JStr ''Moscow Oblast''), (''uuid'', JStr ''u2''), (''fullName'', JStr ''B'')],
        JObj [(''name'', JStr ''Moscow''), (''uuid'', JStr ''u3''), (''fullName'', JStr ''C'')]])
   \<and> 2 \<le> length (filter (is_candidate ''Moscow'')
       [JObj [(''name'', JStr ''Moscow''), (''uuid'', JStr ''u1''), (''fullName'', JStr ''A'')],
        JObj [(''name'', JStr ''Moscow Oblast''), (''uuid'', JStr ''u2''), (''fullName'', JStr ''B'')],
        JObj [(''name'', JStr ''Moscow''), (''uuid'', JStr ''u3''), (''fullName'', JStr ''C'')]])
   \<and> extract_city_dict (JObj [(''data'', JArr
       [JObj [(''name'', JStr ''Moscow''), (''uuid'', JStr ''u1''), (''fullName'', JStr ''A'')],
        JObj [(''name'', JStr ''Moscow Oblast''), (''uuid'', JStr ''u2''), (''fullName'', JStr ''B'')],
        JObj [(''name'', JStr ''Moscow''), (''uuid'', JStr ''u3''), (''fullName'', JStr ''C'')]])])
       ''Moscow''
     = Inr (JObj [(''name'', JStr ''Moscow''), (''city_uid'', JStr ''u3''),
                  (''full_name'', JStr ''C'')])"
proof -
  let ?items = "[JObj [(''name'', JStr ''Moscow''), (''uuid'', JStr ''u1''), (''fullName'', JStr ''A'')],
        JObj [(''name'', JStr ''Moscow Oblast''), (''uuid'', JStr ''u2''), (''fullName'', JStr ''B'')],
        JObj [(''name'', JStr ''Moscow''), (''uuid'', JStr ''u3''), (''fullName'', JStr ''C'')]]"
  have h1: "py_get (JObj [(''data'', JArr ?items)]) ''data'' = Inr (JArr ?items)"
    by (simp add: dict_get_def)
  have h2: "2 \<le> length (filter (is_candidate ''Moscow'') ?items)"
    by (simp add: is_candidate_def dict_get_def)
  show ?thesis
    using h1 h2 extract_city_dict_last_match[OF h1 h2]
    by (simp add: is_candidate_def dict_get_def is_dict_def city_record_def field_def)
qed


section \<open>The city parser: cache and report\<close>

lemmas city_defs = get_cities_info_def run_city_parsing_def city_worker_def CityParser_init_def
  city_task_done_def city_success_def city_except_def city_env_def city_endpoint_def
  CARGO_CITY_URL_format_def moscow_response_def nearest_response_def extract_city_dict_def
  dict_get_def CitiesReport_init_def kw_int_def kw_strs_def returned_def left_behind_def

lemma map_of_dict_set: "map_of (dict_set d k v) k' = (if k' = k then Some v else map_of d k')"
  by (induction d) auto

lemma dict_get_dict_set: "dict_get (dict_set d k v) k' = (if k' = k then v else dict_get d k')"
  by (simp add: dict_get_def map_of_dict_set)

lemma city_worker_results_cached:
  assumes "results_cached s"
  shows "results_cached (city_worker ev w s)"
proof (cases "w < length (city_tasks s)")
  case False
  then show ?thesis using assms by (simp add: city_worker_def)
next
  case True
  show ?thesis
  proof (cases "city_tasks s ! w")
    case CityPolling
    show ?thesis
    proof (cases "city_queue s")
      case Nil
      then show ?thesis using assms True CityPolling by (simp add: city_worker_def)
    next
      case (Cons n rest)
      then show ?thesis using assms True CityPolling
        by (auto simp: city_worker_def results_cached_def city_task_done_def Let_def
            dict_get_dict_set)
    qed
  next
    case (AwaitParseCity n resp)
    then show ?thesis using assms True
      by (auto simp: city_worker_def results_cached_def city_task_done_def city_success_def
          city_except_def dict_get_dict_set split: sum.splits)
  next
    case (CityCrashed e)
    then show ?thesis using assms True by (simp add: city_worker_def)
  qed
qed

lemma city_loop_results_cached:
  "results_cached s \<Longrightarrow> results_cached (city_loop ev sched s)"
  by (induction sched arbitrary: s) (auto simp: city_worker_results_cached)

lemma city_worker_all_cached:
  assumes "all_cached c l names s"
  shows "all_cached c l names (city_worker ev w s)"
proof (cases "w < length (city_tasks s)")
  case False
  then show ?thesis using assms by (simp add: city_worker_def)
next
  case True
  then have pol: "city_tasks s ! w = CityPolling"
    using assms by (simp add: all_cached_def)
  show ?thesis
  proof (cases "city_queue s")
    case Nil
    then show ?thesis using assms True pol by (simp add: city_worker_def)
  next
    case (Cons n rest)
    have tn: "truthy (dict_get c n)" using assms Cons by (simp add: all_cached_def)
    have cs: "self_cached_cities s = c" using assms by (simp add: all_cached_def)
    have un: "city_unfinished s = Suc (length rest)"
      using assms Cons by (simp add: all_cached_def)
    have st: "city_worker ev w s =
        s\<lparr>city_queue := rest,
          self_results := dict_set (self_results s) n (dict_get c n),
          self_cities_success := self_cities_success s + 1,
          city_unfinished := length rest,
          city_tasks := (city_tasks s)[w := CityPolling]\<rparr>"
      using True pol Cons tn cs un
      by (simp add: city_worker_def city_task_done_def Let_def)
    have tasks: "\<forall>t \<in> set ((city_tasks s)[w := CityPolling]). t = CityPolling"
      using assms by (auto simp: all_cached_def dest!: set_update_subset_insert[THEN subsetD])
    show ?thesis
      unfolding st using assms Cons tasks
      by (auto simp: all_cached_def dict_get_dict_set)
  qed
qed

lemma city_loop_all_cached:
  "all_cached c l names s \<Longrightarrow> all_cached c l names (city_loop ev sched s)"
  by (induction sched arbitrary: s) (auto simp: city_worker_all_cached)

lemma get_cities_info_Inr:
  assumes "get_cities_info ev sched cities s = Some (Inr ((res, rep), s'))"
  shows "\<exists>s1. s1 = run_city_parsing ev sched cities (s\<lparr>self_results := []\<rparr>)
            \<and> city_unfinished s1 = 0 \<and> res = self_results s1
            \<and> s' = s1\<lparr>city_tasks := []\<rparr>
            \<and> rep = \<lparr>cities_total = 0, cities_success = 0, cities_fail = 0,
                      cities_fail_items = self_cities_fail_list s1\<rparr>"
  using assms
  by (auto simp: get_cities_info_def Let_def CitiesReport_init_def kw_int_def kw_strs_def
      split: if_splits)

lemma get_cities_info_results_cached:
  assumes "get_cities_info ev sched cities s = Some (Inr ((res, rep), s'))"
    and "truthy (dict_get res n)"
  shows "dict_get (self_cached_cities s') n = dict_get res n"
proof -
  let ?s0 = "s\<lparr>self_results := [], city_queue := cities, city_unfinished := length cities,
        city_tasks := replicate (nat (min (int (length cities)) (city_thread_limit s)))
                        CityPolling\<rparr>"
  have "results_cached ?s0" by (simp add: results_cached_def dict_get_def)
  then have "results_cached (city_loop ev sched ?s0)" by (rule city_loop_results_cached)
  moreover from get_cities_info_Inr[OF assms(1)]
  have "res = self_results (city_loop ev sched ?s0)"
    and "self_cached_cities s' = self_cached_cities (city_loop ev sched ?s0)"
    by (auto simp: run_city_parsing_def)
  ultimately show ?thesis using assms(2) by (simp add: results_cached_def)
qed

lemma get_cities_info_all_cached:
  assumes "get_cities_info ev sched cities s = Some (Inr ((res, rep), s'))"
    and "\<forall>n \<in> set cities. truthy (dict_get (self_cached_cities s) n)"
  shows "city_log s' = city_log s \<and> self_cached_cities s' = self_cached_cities s
         \<and> (\<forall>n \<in> set cities. dict_get res n = dict_get (self_cached_cities s) n)"
proof -
  let ?s0 = "s\<lparr>self_results := [], city_queue := cities, city_unfinished := length cities,
        city_tasks := replicate (nat (min (int (length cities)) (city_thread_limit s)))
                        CityPolling\<rparr>"
  let ?s1 = "city_loop ev sched ?s0"
  have "all_cached (self_cached_cities s) (city_log s) cities ?s0"
    using assms(2) by (simp add: all_cached_def)
  then have ac: "all_cached (self_cached_cities s) (city_log s) cities ?s1"
    by (rule city_loop_all_cached)
  from get_cities_info_Inr[OF assms(1)]
  have fin: "city_unfinished ?s1 = 0" and res: "res = self_results ?s1"
    and s': "s' = ?s1\<lparr>city_tasks := []\<rparr>"
    by (auto simp: run_city_parsing_def)
  from ac fin have "city_queue ?s1 = []" by (simp add: all_cached_def)
  with ac res s' show ?thesis by (simp add: all_cached_def)
qed

text \<open>
  C2 (the code does not do this). \<open>_get_cities_info\<close> passes the counts to
  \<open>CitiesReport\<close> under the keywords \<open>routes_total\<close>, \<open>routes_success\<close> and
  \<open>routes_fail\<close>, which are no fields of that model, so they are dropped and the report
  keeps the defaults: for the batch of one name, resolved from the network, the report
  says total 0, success 0, fail 0, while the parser itself has counted one success.
\<close>

theorem get_cities_info_report_counts_dropped:
  "returned (get_cities_info city_env [0, 0] [''Moscow''] (CityParser_init [] 10)) =
     Some ([(''Moscow'', JObj [(''name'', JStr ''Moscow''),
                               (''city_uid'', JStr ''01581370-81f3-4322-9a28-3418adfabd97''),
                               (''full_name'', JStr ''Moscow, Russia'')])],
           \<lparr>cities_total = 0, cities_success = 0, cities_fail = 0, cities_fail_items = []\<rparr>)
   \<and> map_option self_cities_success
       (left_behind (get_cities_info city_env [0, 0] [''Moscow''] (CityParser_init [] 10)))
     = Some 1"
  by (simp add: city_defs Let_def)

text \<open>
  C3 (the code does not do this). When the candidate list is not empty and holds no
  candidate of the queried name, \<open>_extract_city_dict\<close> raises nothing: it returns the
  empty dict, and the worker stores it in the results and in the cache and counts a
  success. For the batch Moscow, Unknownville the result holds an empty record for
  Unknownville, the parser has counted two successes and no failure, its fail list is
  empty, and the report carries no count at all.
\<close>

theorem unmatched_city_counted_as_success:
  "extract_city_dict nearest_response ''Unknownville'' = Inr (JObj [])
   \<and> returned (get_cities_info city_env [0, 1, 0, 1] [''Moscow'', ''Unknownville'']
                 (CityParser_init [] 10)) =
     Some ([(''Moscow'', JObj [(''name'', JStr ''Moscow''),
                               (''city_uid'', JStr ''01581370-81f3-4322-9a28-3418adfabd97''),
                               (''full_name'', JStr ''Moscow, Russia'')]),
            (''Unknownville'', JObj [])],
           \<lparr>cities_total = 0, cities_success = 0, cities_fail = 0, cities_fail_items = []\<rparr>)
   \<and> map_option (\<lambda>s. (self_cities_success s, self_cities_fail s, self_cities_fail_list s))
       (left_behind (get_cities_info city_env [0, 1, 0, 1] [''Moscow'', ''Unknownville'']
                       (CityParser_init [] 10)))
     = Some (2, 0, [])"
  by (simp add: city_defs Let_def)

text \<open>
  C4 as stated fails: the worker tests the cached record for truth, not for presence.
  A name resolved to the empty record is counted as resolved and stored in the cache,
  and resolving it again on the same parser and cache sends a second request.
\<close>

theorem empty_cached_record_fetched_again:
  "map_option (\<lambda>s. (self_cities_success s, map_of (self_cached_cities s) ''Unknownville'',
                     length (city_log s)))
     (left_behind (get_cities_info city_env [0, 0] [''Unknownville''] (CityParser_init [] 10)))
     = Some (1, Some (JObj []), 1)
   \<and> map_option (\<lambda>s. length (city_log s)) (resolve_twice city_env ''Unknownville'') = Some 2"
  by (simp add: city_defs resolve_twice_def Let_def)

text \<open>
  C4, amended. When the cached record of a name is not empty (is true in Python) at
  the moment a worker takes the name, the worker puts that record into the results,
  sends no request and leaves the cache as it is. Consequently, when a call has
  resolved a name to a non-empty record, a later call for that name on a parser over the
  same cache sends no request and returns the same record.
\<close>

theorem cached_city_needs_no_request:
  "(w < length (city_tasks s) \<and> city_tasks s ! w = CityPolling
      \<and> city_queue s = city_name # rest
      \<and> truthy (dict_get (self_cached_cities s) city_name)
    \<longrightarrow> city_log (city_worker ev w s) = city_log s
        \<and> self_cached_cities (city_worker ev w s) = self_cached_cities s
        \<and> dict_get (self_results (city_worker ev w s)) city_name
            = dict_get (self_cached_cities s) city_name)
   \<and> (get_cities_info ev1 sched1 cities s0 = Some (Inr ((res1, rep1), s1))
      \<and> truthy (dict_get res1 city_name)
      \<and> self_cached_cities s1' = self_cached_cities s1
      \<and> get_cities_info ev2 sched2 [city_name] s1' = Some (Inr ((res2, rep2), s2))
    \<longrightarrow> city_log s2 = city_log s1'
        \<and> dict_get res2 city_name = dict_get res1 city_name)"
proof (intro conjI impI)
  assume a: "w < length (city_tasks s) \<and> city_tasks s ! w = CityPolling
      \<and> city_queue s = city_name # rest
      \<and> truthy (dict_get (self_cached_cities s) city_name)"
  then show "city_log (city_worker ev w s) = city_log s"
    and "self_cached_cities (city_worker ev w s) = self_cached_cities s"
    and "dict_get (self_results (city_worker ev w s)) city_name
            = dict_get (self_cached_cities s) city_name"
    by (simp_all add: city_worker_def city_task_done_def Let_def dict_get_dict_set)
next
  assume b: "get_cities_info ev1 sched1 cities s0 = Some (Inr ((res1, rep1), s1))
      \<and> truthy (dict_get res1 city_name)
      \<and> self_cached_cities s1' = self_cached_cities s1
      \<and> get_cities_info ev2 sched2 [city_name] s1' = Some (Inr ((res2, rep2), s2))"
  then have c1: "dict_get (self_cached_cities s1') city_name = dict_get res1 city_name"
    using get_cities_info_results_cached[of ev1 sched1 cities s0 res1 rep1 s1 city_name]
    by simp
  with b have "\<forall>n \<in> set [city_name]. truthy (dict_get (self_cached_cities s1') n)"
    by simp
  from get_cities_info_all_cached[OF _ this, of ev2 sched2 res2 rep2 s2] b c1
  show "city_log s2 = city_log s1'" and "dict_get res2 city_name = dict_get res1 city_name"
    by simp_all
qed

theorem cached_city_needs_no_request_witness:
  "0 < length (city_tasks (moscow_parser\<lparr>city_queue := [''Moscow''], city_unfinished := 1,
                                          city_tasks := [CityPolling]\<rparr>))
   \<and> truthy (dict_get (self_cached_cities moscow_parser) ''Moscow'')
   \<and> city_log (city_worker city_env 0
        (moscow_parser\<lparr>city_queue := [''Moscow''], city_unfinished := 1,
                        city_tasks := [CityPolling]\<rparr>)) = city_log moscow_parser
   \<and> dict_get (self_results (city_worker city_env 0
        (moscow_parser\<lparr>city_queue := [''Moscow''], city_unfinished := 1,
                        city_tasks := [CityPolling]\<rparr>))) ''Moscow'' = moscow_record
   \<and> get_cities_info city_env [0, 0] [''Moscow''] (CityParser_init [] 10)
       = Some (Inr (([(''Moscow'', moscow_record)], no_counts), moscow_parser))
   \<and> truthy (dict_get [(''Moscow'', moscow_record)] ''Moscow'')
   \<and> get_cities_info city_env [0] [''Moscow''] moscow_parser
       = Some (Inr (([(''Moscow'', moscow_record)], no_counts),
                    moscow_parser\<lparr>self_cities_success := 2\<rparr>))
   \<and> city_log (moscow_parser\<lparr>self_cities_success := 2\<rparr>) = city_log moscow_parser"
proof -
  let ?s = "moscow_parser\<lparr>city_queue := [''Moscow''], city_unfinished := 1,
                          city_tasks := [CityPolling]\<rparr>"
  have first: "get_cities_info city_env [0, 0] [''Moscow''] (CityParser_init [] 10)
       = Some (Inr (([(''Moscow'', moscow_record)], no_counts), moscow_parser))"
    by (simp add: city_defs moscow_parser_def moscow_record_def no_counts_def Let_def)
  have second: "get_cities_info city_env [0] [''Moscow''] moscow_parser
       = Some (Inr (([(''Moscow'', moscow_record)], no_counts),
                    moscow_parser\<lparr>self_cities_success := 2\<rparr>))"
    by (simp add: city_defs moscow_parser_def moscow_record_def no_counts_def Let_def)
  have tr: "truthy (dict_get [(''Moscow'', moscow_record)] ''Moscow'')"
    by (simp add: dict_get_def moscow_record_def)
  have pre: "0 < length (city_tasks ?s) \<and> city_tasks ?s ! 0 = CityPolling
      \<and> city_queue ?s = ''Moscow'' # []
      \<and> truthy (dict_get (self_cached_cities ?s) ''Moscow'')"
    by (simp add: moscow_parser_def dict_get_def moscow_record_def)
  from cached_city_needs_no_request[of 0 ?s "''Moscow''" "[]" city_env city_env "[0, 0]"
      "[''Moscow'']" "CityParser_init [] 10" "[(''Moscow'', moscow_record)]" no_counts
      moscow_parser moscow_parser city_env "[0]" "[(''Moscow'', moscow_record)]" no_counts
      "moscow_parser\<lparr>self_cities_success := 2\<rparr>"]
    pre first second tr
  show ?thesis
    by (simp add: moscow_parser_def dict_get_def)
qed


section \<open>Service-id resolution\<close>

lemma find_append_case:
  "find P (xs @ ys) = (case find P xs of None \<Rightarrow> find P ys | Some x \<Rightarrow> Some x)"
  by (induction xs) auto

lemma tariffs_loop_find:
  "list_all is_dict ts \<Longrightarrow>
   tariffs_loop ev rq ts = map_option (tariff_result ev) (find (tariff_matches rq) ts)"
proof (induction ts)
  case Nil
  then show ?case by simp
next
  case (Cons t ts)
  then have d: "is_dict t" and ds: "list_all is_dict ts" by simp_all
  show ?case
  proof (cases "tariff_matches rq t")
    case True
    then show ?thesis using d
      by (simp add: py_get_dict tariff_matches_def tariff_result_def split: sum.splits)
  next
    case False
    then show ?thesis using d Cons.IH[OF ds]
      by (auto simp: py_get_dict tariff_matches_def)
  qed
qed

lemma groups_loop_first_tariff:
  "tariff_shape gs \<Longrightarrow>
   groups_loop ev rq gs =
     (case first_tariff rq gs of
        None \<Rightarrow> Inl (Exception ''service_id not found'')
      | Some t \<Rightarrow> tariff_result ev t)"
proof (induction gs)
  case Nil
  then show ?case by (simp add: first_tariff_def)
next
  case (Cons g gs)
  then have sh: "group_shape g" and shs: "tariff_shape gs" by (simp_all add: tariff_shape_def)
  from sh obtain ts where d: "is_dict g" and ts: "field g ''tariffs'' = JArr ts"
    and dts: "list_all is_dict ts"
    by (auto simp: group_shape_def split: json.splits)
  show ?case
  proof (cases "group_matches rq g")
    case False
    then show ?thesis using d Cons.IH[OF shs]
      by (simp add: py_get_dict group_matches_def first_tariff_def)
  next
    case True
    have ft: "first_tariff rq (g # gs) =
        (case find (tariff_matches rq) ts of None \<Rightarrow> first_tariff rq gs | Some t \<Rightarrow> Some t)"
      using True ts
      by (simp add: first_tariff_def tariffs_of_def find_append_case split: option.splits)
    show ?thesis
      using True d ts tariffs_loop_find[OF dts, of ev rq] Cons.IH[OF shs]
      by (simp add: py_get_dict group_matches_def ft split: option.splits)
  qed
qed

text \<open>
  Whatever the response is, a result comes from the first matching tariff: a return
  happens only at a match, and everything scanned before it was well formed.
\<close>

lemma tariffs_loop_Inr:
  "tariffs_loop ev rq ts = Some (Inr r) \<Longrightarrow>
   \<exists>t. find (tariff_matches rq) ts = Some t \<and> tariff_result ev t = Inr r"
proof (induction ts)
  case Nil
  then show ?case by simp
next
  case (Cons t ts)
  show ?case
  proof (cases "is_dict t")
    case False
    then show ?thesis using Cons.prems by (simp add: py_get_not_dict)
  next
    case True
    show ?thesis
    proof (cases "tariff_matches rq t")
      case m: True
      then show ?thesis using True Cons.prems
        by (auto simp: py_get_dict tariff_matches_def tariff_result_def split: sum.splits)
    next
      case m: False
      then have "tariffs_loop ev rq ts = Some (Inr r)"
        using True Cons.prems by (auto simp: py_get_dict tariff_matches_def split: if_splits)
      from Cons.IH[OF this] m show ?thesis by simp
    qed
  qed
qed

lemma tariffs_loop_None:
  "tariffs_loop ev rq ts = None \<Longrightarrow> find (tariff_matches rq) ts = None"
proof (induction ts)
  case Nil
  then show ?case by simp
next
  case (Cons t ts)
  show ?case
  proof (cases "is_dict t")
    case False
    then show ?thesis using Cons.prems by (simp add: py_get_not_dict)
  next
    case True
    then show ?thesis using Cons
      by (auto simp: py_get_dict tariff_matches_def split: if_splits sum.splits)
  qed
qed

lemma groups_loop_Inr:
  "groups_loop ev rq gs = Inr r \<Longrightarrow>
   \<exists>t. first_tariff rq gs = Some t \<and> tariff_result ev t = Inr r"
proof (induction gs)
  case Nil
  then show ?case by simp
next
  case (Cons g gs)
  show ?case
  proof (cases "is_dict g")
    case False
    then show ?thesis using Cons.prems by (simp add: py_get_not_dict)
  next
    case d: True
    show ?thesis
    proof (cases "group_matches rq g")
      case False
      then have "groups_loop ev rq gs = Inr r"
        using d Cons.prems by (simp add: py_get_dict group_matches_def)
      from Cons.IH[OF this] False show ?thesis by (simp add: first_tariff_def)
    next
      case True
      from Cons.prems True d obtain ts where it: "py_iter (field g ''tariffs'') = Inr ts"
        and lp: "(case tariffs_loop ev rq ts of Some r \<Rightarrow> r | None \<Rightarrow> groups_loop ev rq gs) = Inr r"
        by (auto simp: py_get_dict group_matches_def split: sum.splits)
      show ?thesis
      proof (cases "tariffs_loop ev rq ts")
        case None
        then have gl: "groups_loop ev rq gs = Inr r" using lp by simp
        have nf: "find (tariff_matches rq) ts = None" using None by (rule tariffs_loop_None)
        have "find (tariff_matches rq) (tariffs_of g) = None"
        proof (cases "field g ''tariffs''")
          case (JArr xs)
          then show ?thesis using it nf by (simp add: tariffs_of_def)
        qed (simp_all add: tariffs_of_def)
        with Cons.IH[OF gl] True show ?thesis
          by (simp add: first_tariff_def find_append_case)
      next
        case (Some x)
        then have x: "tariffs_loop ev rq ts = Some (Inr r)" using lp by simp
        then have tne: "ts \<noteq> []" by auto
        from tariffs_loop_Inr[OF x] obtain t where
          f: "find (tariff_matches rq) ts = Some t" and tr: "tariff_result ev t = Inr r"
          by blast
        have "tariffs_of g = ts"
        proof (cases "field g ''tariffs''")
          case (JArr xs)
          then show ?thesis using it by (simp add: tariffs_of_def)
        next
          case (JObj kvs)
          then have "ts = map (\<lambda>kv. JStr (fst kv)) kvs" using it by simp
          then obtain k ts' where "ts = JStr k # ts'" using tne by (cases kvs) auto
          then show ?thesis using x by simp
        next
          case (JStr str)
          then have "ts = map (\<lambda>c. JStr [c]) str" using it by simp
          then obtain c ts' where "ts = JStr [c] # ts'" using tne by (cases str) auto
          then show ?thesis using x by simp
        qed (use it in simp_all)
        with f tr True show ?thesis
          by (simp add: first_tariff_def find_append_case)
      qed
    qed
  qed
qed

lemma parse_service_id_Inr:
  assumes "parse_service_id ev data rq = Inr r"
  shows "\<exists>groups t. py_get data ''data'' = Inr (JArr groups) \<and> groups \<noteq> []
           \<and> first_tariff rq groups = Some t \<and> tariff_result ev t = Inr r"
proof -
  from assms obtain los gs where g: "py_get data ''data'' = Inr los" and tr: "truthy los"
    and it: "py_iter los = Inr gs" and gl: "groups_loop ev rq gs = Inr r"
    by (auto simp: parse_service_id_def split: sum.splits if_splits)
  have "gs \<noteq> []" using gl by auto
  have "los = JArr gs"
  proof (cases los)
    case (JArr xs)
    then show ?thesis using it by simp
  next
    case (JObj kvs)
    then have "gs = map (\<lambda>kv. JStr (fst kv)) kvs" using it by simp
    then obtain k gs' where "gs = JStr k # gs'" using \<open>gs \<noteq> []\<close> by (cases kvs) auto
    then show ?thesis using gl by simp
  next
    case (JStr str)
    then have "gs = map (\<lambda>c. JStr [c]) str" using it by simp
    then obtain c gs' where "gs = JStr [c] # gs'" using \<open>gs \<noteq> []\<close> by (cases str) auto
    then show ?thesis using gl by simp
  qed (use it in simp_all)
  with g \<open>gs \<noteq> []\<close> groups_loop_Inr[OF gl] show ?thesis by blast
qed

text \<open>
  C7. For a tariff response of the documented shape (a non-empty list of groups, each a
  dict with a list of tariff dicts) \<open>_parse_service_id\<close> returns the service id and the
  two durations of the first tariff, among the groups whose description is the request's
  cargo-type descriptor, whose mode is the request's mode and whose short description is
  the request's tariff descriptor (the service id through \<open>UUID\<close>, which raises on a
  value that is no UUID), and raises when there is no such tariff. It raises when the
  data list is missing or empty. And for any response at all, a result it returns is the
  one of the first matching tariff.
\<close>

theorem parse_service_id_first_matching_tariff:
  "(py_get data ''data'' = Inr (JArr groups) \<and> groups \<noteq> [] \<and> tariff_shape groups
    \<longrightarrow> parse_service_id ev data rq =
          (case first_tariff rq groups of
             None \<Rightarrow> Inl (Exception ''service_id not found'')
           | Some t \<Rightarrow> tariff_result ev t))
   \<and> (is_dict data \<and> \<not> truthy (field data ''data'')
      \<longrightarrow> parse_service_id ev data rq = Inl (Exception ''service_id not parsed''))
   \<and> (parse_service_id ev data rq = Inr r
      \<longrightarrow> (\<exists>gs t. py_get data ''data'' = Inr (JArr gs) \<and> first_tariff rq gs = Some t
                  \<and> tariff_result ev t = Inr r))"
proof (intro conjI impI)
  assume "py_get data ''data'' = Inr (JArr groups) \<and> groups \<noteq> [] \<and> tariff_shape groups"
  then show "parse_service_id ev data rq =
          (case first_tariff rq groups of
             None \<Rightarrow> Inl (Exception ''service_id not found'')
           | Some t \<Rightarrow> tariff_result ev t)"
    using groups_loop_first_tariff[of groups ev rq] by (simp add: parse_service_id_def)
next
  assume "is_dict data \<and> \<not> truthy (field data ''data'')"
  then show "parse_service_id ev data rq = Inl (Exception ''service_id not parsed'')"
    by (simp add: parse_service_id_def py_get_dict)
next
  assume "parse_service_id ev data rq = Inr r"
  from parse_service_id_Inr[OF this]
  show "\<exists>gs t. py_get data ''data'' = Inr (JArr gs) \<and> first_tariff rq gs = Some t
                  \<and> tariff_result ev t = Inr r"
    by blast
qed

lemmas cargo_example_defs = cargo_env_def down_env_def cargo_endpoint_def uuid_of_json_def
  uuid_to_string_def uuid_table_def number_of_json_def tariff_response_def tariff_groups_def
  price_response_def express_request_def fresh_parser_def CargoParserWithToken_init_def
  SERVICE_ID_URL_def CARGO_PARSER_URL_def

theorem parse_service_id_first_matching_tariff_witness:
  "py_get tariff_response ''data'' = Inr (JArr tariff_groups)
   \<and> tariff_groups \<noteq> []
   \<and> tariff_shape tariff_groups
   \<and> parse_service_id cargo_env tariff_response express_request = Inr (UUID 3, JNum 1, JNum 2)
   \<and> is_dict (JObj [(''error'', JStr ''no tariffs'')])
   \<and> \<not> truthy (field (JObj [(''error'', JStr ''no tariffs'')]) ''data'')
   \<and> parse_service_id cargo_env (JObj [(''error'', JStr ''no tariffs'')]) express_request
       = Inl (Exception ''service_id not parsed'')"
proof -
  have h1: "py_get tariff_response ''data'' = Inr (JArr tariff_groups) \<and> tariff_groups \<noteq> []
      \<and> tariff_shape tariff_groups"
    by (simp add: tariff_response_def dict_get_def tariff_groups_def tariff_shape_def
        group_shape_def is_dict_def field_def)
  have h2: "is_dict (JObj [(''error'', JStr ''no tariffs'')])
      \<and> \<not> truthy (field (JObj [(''error'', JStr ''no tariffs'')]) ''data'')"
    by (simp add: is_dict_def field_def dict_get_def)
  have ft: "first_tariff express_request tariff_groups =
      Some (JObj [(''mode'', JStr ''HOME-HOME''), (''shortDescription'', JStr ''16:00''),
                  (''serviceId'', JStr ''a1b2c3d4-0000-4000-8000-000000000003''),
                  (''durationMin'', JNum 1), (''durationMax'', JNum 2)])"
    by (simp add: first_tariff_def tariff_groups_def group_matches_def tariff_matches_def
        tariffs_of_def field_def dict_get_def express_request_def)
  have tr: "tariff_result cargo_env
      (JObj [(''mode'', JStr ''HOME-HOME''), (''shortDescription'', JStr ''16:00''),
             (''serviceId'', JStr ''a1b2c3d4-0000-4000-8000-000000000003''),
             (''durationMin'', JNum 1), (''durationMax'', JNum 2)])
      = Inr (UUID 3, JNum 1, JNum 2)"
    by (simp add: tariff_result_def cargo_env_def uuid_of_json_def uuid_table_def field_def
        dict_get_def)
  from parse_service_id_first_matching_tariff[of tariff_response tariff_groups cargo_env
      express_request "(UUID 3, JNum 1, JNum 2)"]
    parse_service_id_first_matching_tariff[of "JObj [(''error'', JStr ''no tariffs'')]"
      tariff_groups cargo_env express_request "(UUID 3, JNum 1, JNum 2)"]
    h1 h2 ft tr
  show ?thesis by simp
qed


section \<open>The cargo worker, step by step\<close>

lemma concat_map_update:
  "w < length ts \<Longrightarrow>
   mset (concat (map f (ts[w := t]))) + mset (f (ts ! w)) = mset (concat (map f ts)) + mset (f t)"
proof (induction ts arbitrary: w)
  case Nil
  then show ?case by simp
next
  case (Cons x xs)
  then show ?case by (cases w) (auto simp: add.assoc)
qed

lemma sum_list_map_update:
  "w < length ts \<Longrightarrow>
   sum_list (map g (ts[w := t])) + g (ts ! w) = sum_list (map g ts) + (g t :: nat)"
proof (induction ts arbitrary: w)
  case Nil
  then show ?case by simp
next
  case (Cons x xs)
  then show ?case by (cases w) auto
qed

lemma in_flight_update:
  assumes "w < length (cargo_tasks s)"
  shows "mset (concat (map task_item ((cargo_tasks s)[w := t]))) + mset (task_item (cargo_tasks s ! w))
         = mset (in_flight s) + mset (task_item t)"
  using concat_map_update[OF assms, of task_item t] by (simp add: in_flight_def)

lemma in_flight_update_length:
  assumes "w < length (cargo_tasks s)"
  shows "length (concat (map task_item ((cargo_tasks s)[w := t]))) + length (task_item (cargo_tasks s ! w))
         = length (in_flight s) + length (task_item t)"
proof -
  have "size (mset (concat (map task_item ((cargo_tasks s)[w := t]))) + mset (task_item (cargo_tasks s ! w)))
        = size (mset (in_flight s) + mset (task_item t))"
    using in_flight_update[OF assms, of t] by simp
  then show ?thesis by simp
qed

lemma not_crashed_update:
  "\<not> list_ex crashed ts \<Longrightarrow> \<not> crashed t \<Longrightarrow> \<not> list_ex crashed (ts[w := t])"
  by (auto simp: list_ex_iff dest: set_update_subset_insert[THEN subsetD])

lemma extract_data_request:
  "extract_data_from_resp_dict ev cargo_data a rq = Inr route \<Longrightarrow> request route = Some a"
  by (auto simp: extract_data_from_resp_dict_def Route_init_def
      split: sum.splits if_splits list.splits option.splits)

text \<open>
  The seven ways a worker's run can go, in a state that satisfies the invariant: it
  sleeps or does not exist; it takes a request that fails validation; it takes a request
  and sends the tariff request; the tariff answer fails; the tariff answer is resolved and
  the price request is sent; the price answer fails; the price answer gives a route.
\<close>

lemma cargo_worker_cases [consumes 1, case_names sleep take_fail take_send svc_fail svc_ok cargo_fail cargo_ok]:
  assumes inv: "cargo_inv s"
  obtains
    "cargo_worker ev w s = s"
      "w < length (cargo_tasks s) \<Longrightarrow> cargo_tasks s ! w = CargoPolling \<and> cargo_queue s = []"
  | a rest e where
      "w < length (cargo_tasks s)" "cargo_tasks s ! w = CargoPolling" "cargo_queue s = a # rest"
      "RequestForServiceId_body ev (heap s a) = Inl e"
      "cargo_worker ev w s =
         s\<lparr>cargo_queue := rest, self_routes_fail := self_routes_fail s + 1,
           self_routes_fail_list := self_routes_fail_list s @ [a],
           cargo_unfinished := cargo_unfinished s - 1,
           cargo_tasks := (cargo_tasks s)[w := CargoPolling]\<rparr>"
  | a rest body where
      "w < length (cargo_tasks s)" "cargo_tasks s ! w = CargoPolling" "cargo_queue s = a # rest"
      "RequestForServiceId_body ev (heap s a) = Inr body"
      "cargo_worker ev w s =
         s\<lparr>cargo_queue := rest,
           cargo_tasks := (cargo_tasks s)
             [w := AwaitServiceId a (http ev (event_requests (cargo_log s))
                                       (Post (self_service_id_url s) [] body))],
           cargo_log := cargo_log s @ [ServiceIdCall a (Post (self_service_id_url s) [] body)]\<rparr>"
  | a resp e where
      "w < length (cargo_tasks s)" "cargo_tasks s ! w = AwaitServiceId a resp"
      "service_id_outcome ev resp (heap s a) = Inl e"
      "cargo_worker ev w s =
         s\<lparr>self_routes_fail := self_routes_fail s + 1,
           self_routes_fail_list := self_routes_fail_list s @ [a],
           cargo_unfinished := cargo_unfinished s - 1,
           cargo_tasks := (cargo_tasks s)[w := CargoPolling]\<rparr>"
  | a resp u dmin dmax r where
      "w < length (cargo_tasks s)" "cargo_tasks s ! w = AwaitServiceId a resp"
      "service_id_outcome ev resp (heap s a) = Inr (u, dmin, dmax)"
      "r = Post (self_cargo_url s) (self_auth_headers s)
             (RequestForCargo_dump ev
                ((heap s a)\<lparr>service_id := Some u, duration_min := dmin, duration_max := dmax\<rparr>))"
      "cargo_worker ev w s =
         s\<lparr>heap := (heap s)
             (a := (heap s a)\<lparr>service_id := Some u, duration_min := dmin, duration_max := dmax\<rparr>),
           cargo_tasks := (cargo_tasks s)
             [w := AwaitCargo a
                     (http ev (event_requests (cargo_log s @ [ServiceIdResolved a u])) r)],
           cargo_log := cargo_log s @ [ServiceIdResolved a u, CargoCall a r]\<rparr>"
  | a resp e where
      "w < length (cargo_tasks s)" "cargo_tasks s ! w = AwaitCargo a resp"
      "cargo_outcome ev resp a (heap s a) = Inl e"
      "cargo_worker ev w s =
         s\<lparr>self_routes_fail := self_routes_fail s + 1,
           self_routes_fail_list := self_routes_fail_list s @ [a],
           cargo_unfinished := cargo_unfinished s - 1,
           cargo_tasks := (cargo_tasks s)[w := CargoPolling]\<rparr>"
  | a resp route where
      "w < length (cargo_tasks s)" "cargo_tasks s ! w = AwaitCargo a resp"
      "cargo_outcome ev resp a (heap s a) = Inr route" "request route = Some a"
      "cargo_worker ev w s =
         s\<lparr>self_result_list := self_result_list s @ [route],
           self_routes_success := self_routes_success s + 1,
           cargo_unfinished := cargo_unfinished s - 1,
           cargo_tasks := (cargo_tasks s)[w := CargoPolling]\<rparr>"
proof (cases "w < length (cargo_tasks s)")
  case False
  then have "cargo_worker ev w s = s" by (simp add: cargo_worker_def)
  with False show ?thesis using that(1) by simp
next
  case True
  show ?thesis
  proof (cases "cargo_tasks s ! w")
    case CargoPolling
    show ?thesis
    proof (cases "cargo_queue s")
      case Nil
      then have "cargo_worker ev w s = s" using True CargoPolling by (simp add: cargo_worker_def)
      then show ?thesis using that(1) CargoPolling Nil by simp
    next
      case (Cons a rest)
      have pos: "cargo_unfinished s \<noteq> 0" using inv Cons by (simp add: cargo_inv_def)
      show ?thesis
      proof (cases "RequestForServiceId_body ev (heap s a)")
        case (Inl e)
        have "cargo_worker ev w s =
          s\<lparr>cargo_queue := rest, self_routes_fail := self_routes_fail s + 1,
            self_routes_fail_list := self_routes_fail_list s @ [a],
            cargo_unfinished := cargo_unfinished s - 1,
            cargo_tasks := (cargo_tasks s)[w := CargoPolling]\<rparr>"
          using True CargoPolling Cons Inl pos
          by (simp add: cargo_worker_def cargo_task_done_def cargo_except_def Let_def)
        then show ?thesis using that(2) True CargoPolling Cons Inl by blast
      next
        case (Inr body)
        have "cargo_worker ev w s =
          s\<lparr>cargo_queue := rest,
            cargo_tasks := (cargo_tasks s)
              [w := AwaitServiceId a (http ev (event_requests (cargo_log s))
                                        (Post (self_service_id_url s) [] body))],
            cargo_log := cargo_log s @ [ServiceIdCall a (Post (self_service_id_url s) [] body)]\<rparr>"
          using True CargoPolling Cons Inr
          by (simp add: cargo_worker_def Let_def)
        then show ?thesis using that(3) True CargoPolling Cons Inr by blast
      qed
    qed
  next
    case (AwaitServiceId a resp)
    have "task_item (cargo_tasks s ! w) = [a]" using AwaitServiceId by simp
    then have "a \<in> set (in_flight s)"
      using True by (auto simp: in_flight_def intro!: bexI[of _ "cargo_tasks s ! w"])
    then have pos: "cargo_unfinished s \<noteq> 0" using inv by (auto simp: cargo_inv_def)
    show ?thesis
    proof (cases "service_id_outcome ev resp (heap s a)")
      case (Inl e)
      have "cargo_worker ev w s =
         s\<lparr>self_routes_fail := self_routes_fail s + 1,
           self_routes_fail_list := self_routes_fail_list s @ [a],
           cargo_unfinished := cargo_unfinished s - 1,
           cargo_tasks := (cargo_tasks s)[w := CargoPolling]\<rparr>"
        using True AwaitServiceId Inl pos
        by (simp add: cargo_worker_def cargo_task_done_def cargo_except_def
            service_id_outcome_def)
      then show ?thesis using that(4) True AwaitServiceId Inl by blast
    next
      case (Inr tup)
      obtain u dmin dmax where tup: "tup = (u, dmin, dmax)" by (cases tup) auto
      let ?r = "Post (self_cargo_url s) (self_auth_headers s)
             (RequestForCargo_dump ev
                ((heap s a)\<lparr>service_id := Some u, duration_min := dmin, duration_max := dmax\<rparr>))"
      have "cargo_worker ev w s =
         s\<lparr>heap := (heap s)
             (a := (heap s a)\<lparr>service_id := Some u, duration_min := dmin, duration_max := dmax\<rparr>),
           cargo_tasks := (cargo_tasks s)
             [w := AwaitCargo a
                     (http ev (event_requests (cargo_log s @ [ServiceIdResolved a u])) ?r)],
           cargo_log := cargo_log s @ [ServiceIdResolved a u, CargoCall a ?r]\<rparr>"
        using True AwaitServiceId Inr tup
        by (simp add: cargo_worker_def cargo_send_price_def service_id_outcome_def Let_def)
      then show ?thesis using that(5)[of a resp u dmin dmax ?r] True AwaitServiceId Inr tup
        by blast
    qed
  next
    case (AwaitCargo a resp)
    have "task_item (cargo_tasks s ! w) = [a]" using AwaitCargo by simp
    then have "a \<in> set (in_flight s)"
      using True by (auto simp: in_flight_def intro!: bexI[of _ "cargo_tasks s ! w"])
    then have pos: "cargo_unfinished s \<noteq> 0" using inv by (auto simp: cargo_inv_def)
    show ?thesis
    proof (cases "cargo_outcome ev resp a (heap s a)")
      case (Inl e)
      have "cargo_worker ev w s =
         s\<lparr>self_routes_fail := self_routes_fail s + 1,
           self_routes_fail_list := self_routes_fail_list s @ [a],
           cargo_unfinished := cargo_unfinished s - 1,
           cargo_tasks := (cargo_tasks s)[w := CargoPolling]\<rparr>"
        using True AwaitCargo Inl pos
        by (simp add: cargo_worker_def cargo_task_done_def cargo_except_def cargo_outcome_def)
      then show ?thesis using that(6) True AwaitCargo Inl by blast
    next
      case (Inr route)
      have rq: "request route = Some a"
        using Inr by (auto simp: cargo_outcome_def split: sum.splits dest: extract_data_request)
      have "cargo_worker ev w s =
         s\<lparr>self_result_list := self_result_list s @ [route],
           self_routes_success := self_routes_success s + 1,
           cargo_unfinished := cargo_unfinished s - 1,
           cargo_tasks := (cargo_tasks s)[w := CargoPolling]\<rparr>"
        using True AwaitCargo Inr pos
        by (simp add: cargo_worker_def cargo_task_done_def cargo_success_def cargo_outcome_def)
      then show ?thesis using that(7) True AwaitCargo Inr rq by blast
    qed
  next
    case (CargoCrashed e)
    then have "crashed (cargo_tasks s ! w)" by simp
    then have "list_ex crashed (cargo_tasks s)"
      using True by (auto simp: list_ex_iff)
    then show ?thesis using inv by (simp add: cargo_inv_def)
  qed
qed


section \<open>What every step of a cargo worker preserves\<close>

lemma held_unfinished:
  assumes "cargo_inv s" and "w < length (cargo_tasks s)"
    and "task_item (cargo_tasks s ! w) = [a]"
  shows "cargo_unfinished s \<noteq> 0"
proof -
  have "cargo_tasks s ! w \<in> set (cargo_tasks s)" using assms(2) by (rule nth_mem)
  moreover have "a \<in> set (task_item (cargo_tasks s ! w))" using assms(3) by simp
  ultimately have "a \<in> set (in_flight s)" unfolding in_flight_def by auto
  then show ?thesis using assms(1) by (auto simp: cargo_inv_def)
qed

lemma cargo_worker_inv:
  assumes "cargo_inv s"
  shows "cargo_inv (cargo_worker ev w s)"
  using assms
proof (cases rule: cargo_worker_cases[of s ev w])
  case sleep
  then show ?thesis using assms by simp
next
  case (take_fail a rest e)
  from in_flight_update_length[OF take_fail(1), of CargoPolling] take_fail(2)
  have "length (concat (map task_item ((cargo_tasks s)[w := CargoPolling]))) = length (in_flight s)"
    by simp
  then show ?thesis using assms take_fail
    by (simp add: cargo_inv_def in_flight_def not_crashed_update)
next
  case (take_send a rest body)
  from in_flight_update_length[OF take_send(1), of "AwaitServiceId a x" for x] take_send(2)
  have "\<And>x. length (concat (map task_item ((cargo_tasks s)[w := AwaitServiceId a x])))
           = Suc (length (in_flight s))"
    by simp
  then show ?thesis using assms take_send
    by (simp add: cargo_inv_def in_flight_def not_crashed_update)
next
  case (svc_fail a resp e)
  from in_flight_update_length[OF svc_fail(1), of CargoPolling] svc_fail(2)
  have "Suc (length (concat (map task_item ((cargo_tasks s)[w := CargoPolling]))))
          = length (in_flight s)"
    by simp
  then show ?thesis using assms svc_fail
    by (auto simp: cargo_inv_def in_flight_def not_crashed_update)
next
  case (svc_ok a resp u dmin dmax r)
  from in_flight_update_length[OF svc_ok(1), of "AwaitCargo a x" for x] svc_ok(2)
  have "\<And>x. length (concat (map task_item ((cargo_tasks s)[w := AwaitCargo a x])))
           = length (in_flight s)"
    by simp
  then show ?thesis using assms svc_ok(5)
    by (simp add: cargo_inv_def in_flight_def not_crashed_update)
next
  case (cargo_fail a resp e)
  from in_flight_update_length[OF cargo_fail(1), of CargoPolling] cargo_fail(2)
  have "Suc (length (concat (map task_item ((cargo_tasks s)[w := CargoPolling]))))
          = length (in_flight s)"
    by simp
  then show ?thesis using assms cargo_fail
    by (auto simp: cargo_inv_def in_flight_def not_crashed_update)
next
  case (cargo_ok a resp route)
  from in_flight_update_length[OF cargo_ok(1), of CargoPolling] cargo_ok(2)
  have "Suc (length (concat (map task_item ((cargo_tasks s)[w := CargoPolling]))))
          = length (in_flight s)"
    by simp
  then show ?thesis using assms cargo_ok
    by (auto simp: cargo_inv_def in_flight_def not_crashed_update)
qed

lemma cargo_worker_accounted:
  assumes "cargo_inv s"
  shows "accounted (cargo_worker ev w s) = accounted s"
  using assms
proof (cases rule: cargo_worker_cases[of s ev w])
  case sleep
  then show ?thesis by simp
next
  case (take_fail a rest e)
  from in_flight_update[OF take_fail(1), of CargoPolling] take_fail(2)
  have "mset (concat (map task_item ((cargo_tasks s)[w := CargoPolling]))) = mset (in_flight s)"
    by simp
  then show ?thesis using take_fail by (simp add: accounted_def in_flight_def)
next
  case (take_send a rest body)
  from in_flight_update[OF take_send(1), of "AwaitServiceId a x" for x] take_send(2)
  have "\<And>x. mset (concat (map task_item ((cargo_tasks s)[w := AwaitServiceId a x])))
           = mset (in_flight s) + {#a#}"
    by simp
  then show ?thesis using take_send by (simp add: accounted_def in_flight_def)
next
  case (svc_fail a resp e)
  from in_flight_update[OF svc_fail(1), of CargoPolling] svc_fail(2)
  have "mset (concat (map task_item ((cargo_tasks s)[w := CargoPolling]))) + {#a#}
          = mset (in_flight s)"
    by simp
  from this[symmetric] show ?thesis using svc_fail by (simp add: accounted_def in_flight_def)
next
  case (svc_ok a resp u dmin dmax r)
  from in_flight_update[OF svc_ok(1), of "AwaitCargo a x" for x] svc_ok(2)
  have "\<And>x. mset (concat (map task_item ((cargo_tasks s)[w := AwaitCargo a x])))
           = mset (in_flight s)"
    by simp
  then show ?thesis using svc_ok(5) by (simp add: accounted_def in_flight_def)
next
  case (cargo_fail a resp e)
  from in_flight_update[OF cargo_fail(1), of CargoPolling] cargo_fail(2)
  have "mset (concat (map task_item ((cargo_tasks s)[w := CargoPolling]))) + {#a#}
          = mset (in_flight s)"
    by simp
  from this[symmetric] show ?thesis using cargo_fail by (simp add: accounted_def in_flight_def)
next
  case (cargo_ok a resp route)
  from in_flight_update[OF cargo_ok(1), of CargoPolling] cargo_ok(2)
  have "mset (concat (map task_item ((cargo_tasks s)[w := CargoPolling]))) + {#a#}
          = mset (in_flight s)"
    by simp
  from this[symmetric] show ?thesis using cargo_ok by (simp add: accounted_def in_flight_def)
qed

lemma cargo_worker_counted:
  assumes "cargo_inv s"
  shows "counted (cargo_worker ev w s) = counted s"
  using assms
proof (cases rule: cargo_worker_cases[of s ev w])
  case sleep
  then show ?thesis by simp
next
  case (take_fail a rest e)
  then show ?thesis using assms by (simp add: counted_def cargo_inv_def)
next
  case (take_send a rest body)
  then show ?thesis by (simp add: counted_def)
next
  case (svc_fail a resp e)
  then have "cargo_unfinished s \<noteq> 0" using held_unfinished[OF assms, of w a] by simp
  then show ?thesis using svc_fail by (simp add: counted_def)
next
  case (svc_ok a resp u dmin dmax r)
  then show ?thesis by (simp add: counted_def)
next
  case (cargo_fail a resp e)
  then have "cargo_unfinished s \<noteq> 0" using held_unfinished[OF assms, of w a] by simp
  then show ?thesis using cargo_fail by (simp add: counted_def)
next
  case (cargo_ok a resp route)
  then have "cargo_unfinished s \<noteq> 0" using held_unfinished[OF assms, of w a] by simp
  then show ?thesis using cargo_ok by (simp add: counted_def)
qed

text \<open>Nothing is ever removed from the result list or the fail list.\<close>

lemma cargo_worker_grows:
  assumes "cargo_inv s"
  shows "prefix (self_result_list s) (self_result_list (cargo_worker ev w s))
         \<and> prefix (self_routes_fail_list s) (self_routes_fail_list (cargo_worker ev w s))
         \<and> prefix (cargo_log s) (cargo_log (cargo_worker ev w s))"
  using assms
  by (cases rule: cargo_worker_cases[of s ev w]) simp_all

text \<open>What a worker cannot change.\<close>

lemma cargo_worker_config:
  assumes "cargo_inv s"
  shows "self_thread_limit (cargo_worker ev w s) = self_thread_limit s
         \<and> length (cargo_tasks (cargo_worker ev w s)) = length (cargo_tasks s)"
  using assms
  by (cases rule: cargo_worker_cases[of s ev w]) simp_all


section \<open>A whole cargo run\<close>

lemma cargo_loop_preserves:
  "cargo_inv s \<Longrightarrow>
   cargo_inv (cargo_loop ev sched s)
   \<and> accounted (cargo_loop ev sched s) = accounted s
   \<and> counted (cargo_loop ev sched s) = counted s
   \<and> prefix (self_result_list s) (self_result_list (cargo_loop ev sched s))
   \<and> prefix (self_routes_fail_list s) (self_routes_fail_list (cargo_loop ev sched s))
   \<and> self_thread_limit (cargo_loop ev sched s) = self_thread_limit s
   \<and> length (cargo_tasks (cargo_loop ev sched s)) = length (cargo_tasks s)"
proof (induction sched arbitrary: s)
  case Nil
  then show ?case by simp
next
  case (Cons w sched)
  show ?case
  proof (cases "cargo_unfinished s = 0")
    case True
    then show ?thesis using Cons.prems by simp
  next
    case False
    let ?s1 = "cargo_worker ev w s"
    have i1: "cargo_inv ?s1" using Cons.prems by (rule cargo_worker_inv)
    note ih = Cons.IH[OF i1]
    note g = cargo_worker_grows[OF Cons.prems, of ev w]
    note c = cargo_worker_config[OF Cons.prems, of ev w]
    have "prefix (self_result_list s) (self_result_list (cargo_loop ev sched ?s1))"
      using g ih by (blast intro: prefix_order.trans)
    moreover have "prefix (self_routes_fail_list s) (self_routes_fail_list (cargo_loop ev sched ?s1))"
      using g ih by (blast intro: prefix_order.trans)
    ultimately show ?thesis
      using False ih c cargo_worker_accounted[OF Cons.prems, of ev w]
        cargo_worker_counted[OF Cons.prems, of ev w]
      by simp
  qed
qed

text \<open>The state in which \<open>_run_cargo_parsing\<close> starts the workers.\<close>

lemma replicate_polling:
  "concat (map task_item (replicate k CargoPolling)) = []"
  "\<not> list_ex crashed (replicate k CargoPolling)"
  "sum_list (map task_work (replicate k CargoPolling)) = 0"
  by (induction k) simp_all

lemma cargo_start_inv:
  "cargo_inv (s\<lparr>cargo_queue := cargo_requests, cargo_unfinished := length cargo_requests,
                cargo_tasks := replicate k CargoPolling\<rparr>)"
  by (simp add: cargo_inv_def in_flight_def replicate_polling)

lemma RequestsReport_init_ok:
  "RequestsReport_init [(''routes_total'', KInt t), (''routes_success'', KInt sc),
                        (''routes_fail'', KInt fl), (''routes_fail_list'', KRefs l)]
   = Inr \<lparr>routes_total = t, routes_success = sc, routes_fail = fl, routes_fail_list = l\<rparr>"
  by (simp add: RequestsReport_init_def kw_int_def kw_refs_def)

lemma retrieve_data_Some:
  assumes "retrieve_data ev sched cargo_requests s = Some x"
  shows "cargo_unfinished (run_cargo_parsing ev sched cargo_requests s) = 0
         \<and> x = Inr ((self_result_list (run_cargo_parsing ev sched cargo_requests s),
                     \<lparr>routes_total = int (length cargo_requests),
                      routes_success = self_routes_success (run_cargo_parsing ev sched cargo_requests s),
                      routes_fail = self_routes_fail (run_cargo_parsing ev sched cargo_requests s),
                      routes_fail_list = self_routes_fail_list (run_cargo_parsing ev sched cargo_requests s)\<rparr>),
                    (run_cargo_parsing ev sched cargo_requests s)\<lparr>cargo_tasks := []\<rparr>)"
  using assms
  by (auto simp: retrieve_data_def Let_def RequestsReport_init_ok split: if_splits)

lemma retrieve_data_returns:
  assumes "cargo_unfinished (run_cargo_parsing ev sched cargo_requests s) = 0"
  shows "\<exists>res rep s'. retrieve_data ev sched cargo_requests s = Some (Inr ((res, rep), s'))"
  using assms by (simp add: retrieve_data_def Let_def RequestsReport_init_ok)

lemma run_cargo_parsing_preserves:
  "cargo_inv (run_cargo_parsing ev sched cargo_requests s)
   \<and> accounted (run_cargo_parsing ev sched cargo_requests s)
       = mset (map Some cargo_requests) + mset (map Some (self_routes_fail_list s))
         + mset (map request (self_result_list s))
   \<and> counted (run_cargo_parsing ev sched cargo_requests s)
       = (self_routes_success s - int (length (self_result_list s)),
          self_routes_fail s - int (length (self_routes_fail_list s)),
          self_routes_success s + self_routes_fail s + int (length cargo_requests))
   \<and> prefix (self_result_list s) (self_result_list (run_cargo_parsing ev sched cargo_requests s))
   \<and> prefix (self_routes_fail_list s)
        (self_routes_fail_list (run_cargo_parsing ev sched cargo_requests s))
   \<and> length (cargo_tasks (run_cargo_parsing ev sched cargo_requests s))
       = nat (min (int (length cargo_requests)) (self_thread_limit s))"
proof -
  let ?k = "nat (min (int (length cargo_requests)) (self_thread_limit s))"
  let ?s0 = "s\<lparr>cargo_queue := cargo_requests, cargo_unfinished := length cargo_requests,
               cargo_tasks := replicate ?k CargoPolling\<rparr>"
  have r: "run_cargo_parsing ev sched cargo_requests s = cargo_loop ev sched ?s0"
    by (simp add: run_cargo_parsing_def)
  have a0: "accounted ?s0 = mset (map Some cargo_requests) + mset (map Some (self_routes_fail_list s))
         + mset (map request (self_result_list s))"
    by (simp add: accounted_def in_flight_def replicate_polling)
  have c0: "counted ?s0 = (self_routes_success s - int (length (self_result_list s)),
          self_routes_fail s - int (length (self_routes_fail_list s)),
          self_routes_success s + self_routes_fail s + int (length cargo_requests))"
    by (simp add: counted_def)
  from cargo_loop_preserves[OF cargo_start_inv[where s = s and cargo_requests = cargo_requests and k = ?k], where ev = ev and sched = sched]
    a0 c0
  show ?thesis unfolding r by simp
qed

text \<open>
  C1 as stated fails: the counters belong to the parser and are not reset by a call.
  On a parser that has already priced one request, a second call with a batch of one
  request returns a report with total 1 and success 2.
\<close>

theorem second_report_total_differs:
  "map_option (\<lambda>r. snd (snd r))
     (retrieve_data_twice cargo_env [0, 0, 0] [0] cargo_env [0, 0, 0] [0] fresh_parser)
     = Some \<lparr>routes_total = 1, routes_success = 2, routes_fail = 0, routes_fail_list = []\<rparr>
   \<and> map_option (\<lambda>r. routes_total (snd (snd r))
                       = routes_success (snd (snd r)) + routes_fail (snd (snd r)))
       (retrieve_data_twice cargo_env [0, 0, 0] [0] cargo_env [0, 0, 0] [0] fresh_parser)
     = Some False"
  by code_simp

lemma returned_Some: "returned x = Some r \<longleftrightarrow> (\<exists>s'. x = Some (Inr (r, s')))"
  by (auto simp: returned_def split: option.splits sum.splits)

text \<open>
  C1, amended. The report a call returns has \<open>routes_total\<close> equal to the number of
  submitted requests, and its \<open>routes_success + routes_fail\<close> is that number plus what
  the two counters of the parser held before the call. So on a parser whose counters are
  still zero, \<open>routes_total = routes_success + routes_fail\<close>.
\<close>

theorem report_counts_add_up:
  assumes "returned (retrieve_data ev sched cargo_requests s) = Some (results, report)"
  shows "routes_total report = int (length cargo_requests)
         \<and> routes_success report + routes_fail report
             = self_routes_success s + self_routes_fail s + int (length cargo_requests)
         \<and> (self_routes_success s = 0 \<and> self_routes_fail s = 0
            \<longrightarrow> routes_total report = routes_success report + routes_fail report)"
proof -
  let ?s1 = "run_cargo_parsing ev sched cargo_requests s"
  from assms obtain s' where "retrieve_data ev sched cargo_requests s = Some (Inr ((results, report), s'))"
    by (auto simp: returned_Some)
  from retrieve_data_Some[OF this]
  have fin: "cargo_unfinished ?s1 = 0"
    and rep: "report = \<lparr>routes_total = int (length cargo_requests),
                      routes_success = self_routes_success ?s1,
                      routes_fail = self_routes_fail ?s1,
                      routes_fail_list = self_routes_fail_list ?s1\<rparr>"
    by simp_all
  from run_cargo_parsing_preserves[of ev sched cargo_requests s]
  have "counted ?s1 = (self_routes_success s - int (length (self_result_list s)),
          self_routes_fail s - int (length (self_routes_fail_list s)),
          self_routes_success s + self_routes_fail s + int (length cargo_requests))"
    by simp
  then have "self_routes_success ?s1 + self_routes_fail ?s1
      = self_routes_success s + self_routes_fail s + int (length cargo_requests)"
    using fin by (simp add: counted_def)
  then show ?thesis using rep by simp
qed

theorem report_counts_add_up_witness:
  "returned (retrieve_data cargo_env [0, 1, 0, 1, 1, 0] [0, 1] fresh_parser)
     = Some ([express_route 1, express_route 0],
             \<lparr>routes_total = 2, routes_success = 2, routes_fail = 0, routes_fail_list = []\<rparr>)
   \<and> self_routes_success fresh_parser = 0 \<and> self_routes_fail fresh_parser = 0
   \<and> routes_total \<lparr>routes_total = 2, routes_success = 2, routes_fail = 0, routes_fail_list = []\<rparr>
       = routes_success \<lparr>routes_total = 2, routes_success = 2, routes_fail = 0, routes_fail_list = []\<rparr>
         + routes_fail \<lparr>routes_total = 2, routes_success = 2, routes_fail = 0, routes_fail_list = []\<rparr>"
proof -
  have run: "returned (retrieve_data cargo_env [0, 1, 0, 1, 1, 0] [0, 1] fresh_parser)
     = Some ([express_route 1, express_route 0],
             \<lparr>routes_total = 2, routes_success = 2, routes_fail = 0, routes_fail_list = []\<rparr>)"
    by code_simp
  have fresh: "self_routes_success fresh_parser = 0 \<and> self_routes_fail fresh_parser = 0"
    by (simp add: fresh_parser_def CargoParserWithToken_init_def)
  from report_counts_add_up[OF run] fresh run show ?thesis by simp
qed

text \<open>
  C10. The result list, the two counters and the fail list of a parser are never reset:
  of two calls in a row on one parser, the second returns a result list that starts with
  the result list of the first, a fail list that starts with the fail list of the first,
  and counts that are those of the first call plus the outcomes of the second batch,
  while \<open>routes_total\<close> is the length of the second batch alone.
\<close>

theorem second_call_keeps_first_results:
  assumes "retrieve_data_twice ev1 sched1 batch1 ev2 sched2 batch2 s
             = Some ((res1, rep1), (res2, rep2))"
  shows "prefix res1 res2
         \<and> prefix (routes_fail_list rep1) (routes_fail_list rep2)
         \<and> routes_success rep1 \<le> routes_success rep2
         \<and> routes_fail rep1 \<le> routes_fail rep2
         \<and> routes_success rep2 + routes_fail rep2
             = routes_success rep1 + routes_fail rep1 + int (length batch2)
         \<and> routes_total rep2 = int (length batch2)"
proof -
  from assms obtain s1 s2 where
    c1: "retrieve_data ev1 sched1 batch1 s = Some (Inr ((res1, rep1), s1))" and
    c2: "retrieve_data ev2 sched2 batch2 s1 = Some (Inr ((res2, rep2), s2))"
    by (auto simp: retrieve_data_twice_def split: option.splits sum.splits)
  let ?t1 = "run_cargo_parsing ev1 sched1 batch1 s"
  let ?t2 = "run_cargo_parsing ev2 sched2 batch2 s1"
  from retrieve_data_Some[OF c1]
  have s1: "s1 = ?t1\<lparr>cargo_tasks := []\<rparr>" and res1: "res1 = self_result_list ?t1"
    and rep1: "rep1 = \<lparr>routes_total = int (length batch1),
                      routes_success = self_routes_success ?t1,
                      routes_fail = self_routes_fail ?t1,
                      routes_fail_list = self_routes_fail_list ?t1\<rparr>"
    by simp_all
  from retrieve_data_Some[OF c2]
  have fin2: "cargo_unfinished ?t2 = 0" and res2: "res2 = self_result_list ?t2"
    and rep2: "rep2 = \<lparr>routes_total = int (length batch2),
                      routes_success = self_routes_success ?t2,
                      routes_fail = self_routes_fail ?t2,
                      routes_fail_list = self_routes_fail_list ?t2\<rparr>"
    by simp_all
  note p = run_cargo_parsing_preserves[of ev2 sched2 batch2 s1]
  have pr: "prefix (self_result_list s1) (self_result_list ?t2)"
    and pf: "prefix (self_routes_fail_list s1) (self_routes_fail_list ?t2)"
    using p by simp_all
  have cnt: "counted ?t2 = (self_routes_success s1 - int (length (self_result_list s1)),
          self_routes_fail s1 - int (length (self_routes_fail_list s1)),
          self_routes_success s1 + self_routes_fail s1 + int (length batch2))"
    using p by simp
  have l1: "length (self_result_list s1) \<le> length (self_result_list ?t2)"
    using pr by (rule prefix_length_le)
  have l2: "length (self_routes_fail_list s1) \<le> length (self_routes_fail_list ?t2)"
    using pf by (rule prefix_length_le)
  have "self_routes_success s1 \<le> self_routes_success ?t2"
    and "self_routes_fail s1 \<le> self_routes_fail ?t2"
    and "self_routes_success ?t2 + self_routes_fail ?t2
           = self_routes_success s1 + self_routes_fail s1 + int (length batch2)"
    using cnt l1 l2 fin2 by (simp_all add: counted_def)
  then show ?thesis using pr pf s1 res1 rep1 res2 rep2 by simp
qed

theorem second_call_keeps_first_results_witness:
  "retrieve_data_twice cargo_env [0, 0, 0] [0] down_env [0, 0] [1] fresh_parser
     = Some (([express_route 0],
              \<lparr>routes_total = 1, routes_success = 1, routes_fail = 0, routes_fail_list = []\<rparr>),
             ([express_route 0],
              \<lparr>routes_total = 1, routes_success = 1, routes_fail = 1, routes_fail_list = [1]\<rparr>))
   \<and> prefix [express_route 0] [express_route 0]
   \<and> prefix (routes_fail_list
        \<lparr>routes_total = 1, routes_success = 1, routes_fail = 0, routes_fail_list = []\<rparr>) [1::nat]"
proof -
  have run: "retrieve_data_twice cargo_env [0, 0, 0] [0] down_env [0, 0] [1] fresh_parser
     = Some (([express_route 0],
              \<lparr>routes_total = 1, routes_success = 1, routes_fail = 0, routes_fail_list = []\<rparr>),
             ([express_route 0],
              \<lparr>routes_total = 1, routes_success = 1, routes_fail = 1, routes_fail_list = [1]\<rparr>))"
    by code_simp
  from second_call_keeps_first_results[OF run] run show ?thesis by simp
qed


section \<open>The order of the two calls\<close>

lemma resolved_before_price_append:
  "resolved_before_price ev l1 \<Longrightarrow> resolved_before_price ev l2 \<Longrightarrow>
   resolved_before_price ev (l1 @ l2)"
  by (induction ev l1 rule: resolved_before_price.induct) simp_all

lemma dump_carries_service_id:
  "carries_service_id ev u
     (Post url hs (RequestForCargo_dump ev (rq\<lparr>service_id := Some u, duration_min := dmin,
                                               duration_max := dmax\<rparr>)))"
  by (simp add: carries_service_id_def RequestForCargo_dump_def dict_get_def)

lemma cargo_log_task_done [simp]: "cargo_log (cargo_task_done w s) = cargo_log s"
  by (simp add: cargo_task_done_def)

lemma cargo_log_except [simp]: "cargo_log (cargo_except a s) = cargo_log s"
  by (simp add: cargo_except_def)

lemma cargo_log_success [simp]: "cargo_log (cargo_success route s) = cargo_log s"
  by (simp add: cargo_success_def)

text \<open>
  What a run of a worker adds to the log: nothing, a tariff call, or the mark of a
  resolution together with the price call, and the last only when the worker waited for
  the tariff answer of that request and \<open>_parse_service_id\<close> returned.
\<close>

lemma cargo_worker_log_cases:
  "cargo_log (cargo_worker ev w s) = cargo_log s
   \<or> (\<exists>a r. cargo_log (cargo_worker ev w s) = cargo_log s @ [ServiceIdCall a r])
   \<or> (\<exists>a resp u dmin dmax r.
         w < length (cargo_tasks s) \<and> cargo_tasks s ! w = AwaitServiceId a resp
         \<and> service_id_outcome ev resp (heap s a) = Inr (u, dmin, dmax)
         \<and> carries_service_id ev u r
         \<and> service_id (heap (cargo_worker ev w s) a) = Some u
         \<and> cargo_log (cargo_worker ev w s) = cargo_log s @ [ServiceIdResolved a u, CargoCall a r])"
proof (cases "w < length (cargo_tasks s)")
  case False
  then show ?thesis by (simp add: cargo_worker_def)
next
  case True
  show ?thesis
  proof (cases "cargo_tasks s ! w")
    case CargoPolling
    show ?thesis
    proof (cases "cargo_queue s")
      case Nil
      then show ?thesis using True CargoPolling by (simp add: cargo_worker_def)
    next
      case (Cons a rest)
      then show ?thesis using True CargoPolling
        by (cases "RequestForServiceId_body ev (heap s a)")
          (simp_all add: cargo_worker_def Let_def)
    qed
  next
    case (AwaitServiceId a resp)
    show ?thesis
    proof (cases "service_id_outcome ev resp (heap s a)")
      case (Inl e)
      then show ?thesis using True AwaitServiceId
        by (simp add: cargo_worker_def service_id_outcome_def)
    next
      case (Inr tup)
      obtain u dmin dmax where tup: "tup = (u, dmin, dmax)" by (cases tup) auto
      let ?r = "Post (self_cargo_url s) (self_auth_headers s)
             (RequestForCargo_dump ev
                ((heap s a)\<lparr>service_id := Some u, duration_min := dmin, duration_max := dmax\<rparr>))"
      have st: "cargo_worker ev w s = cargo_send_price ev w a (u, dmin, dmax) s"
        using True AwaitServiceId Inr tup
        by (simp add: cargo_worker_def service_id_outcome_def)
      have lg: "cargo_log (cargo_worker ev w s) = cargo_log s @ [ServiceIdResolved a u, CargoCall a ?r]"
        and hp: "service_id (heap (cargo_worker ev w s) a) = Some u"
        unfolding st by (simp_all add: cargo_send_price_def Let_def)
      have "carries_service_id ev u ?r" by (rule dump_carries_service_id)
      with True AwaitServiceId Inr tup lg hp show ?thesis by blast
    qed
  next
    case (AwaitCargo a resp)
    then show ?thesis using True
      by (simp add: cargo_worker_def split: sum.splits)
  next
    case (CargoCrashed e)
    then show ?thesis using True by (simp add: cargo_worker_def)
  qed
qed

lemma cargo_worker_resolved_before_price:
  assumes "resolved_before_price ev (cargo_log s)"
  shows "resolved_before_price ev (cargo_log (cargo_worker ev w s))"
proof -
  from cargo_worker_log_cases[of ev w s]
  consider "cargo_log (cargo_worker ev w s) = cargo_log s"
    | a r where "cargo_log (cargo_worker ev w s) = cargo_log s @ [ServiceIdCall a r]"
    | a u r where "carries_service_id ev u r"
        "cargo_log (cargo_worker ev w s) = cargo_log s @ [ServiceIdResolved a u, CargoCall a r]"
    by blast
  then show ?thesis
  proof cases
    case 1
    then show ?thesis using assms by simp
  next
    case 2
    then show ?thesis using resolved_before_price_append[OF assms, of "[ServiceIdCall a r]"]
      by simp
  next
    case 3
    then show ?thesis
      using resolved_before_price_append[OF assms, of "[ServiceIdResolved a u, CargoCall a r]"]
      by simp
  qed
qed

lemma cargo_loop_resolved_before_price:
  "resolved_before_price ev (cargo_log s) \<Longrightarrow>
   resolved_before_price ev (cargo_log (cargo_loop ev sched s))"
  by (induction sched arbitrary: s) (simp_all add: cargo_worker_resolved_before_price)

text \<open>
  C5. A worker sends a price request only in the run in which it has received the
  tariff answer for the same request and \<open>_parse_service_id\<close> has returned a service id
  for it; the body it sends carries that service id, as a string, under \<open>serviceId\<close>,
  and the request object holds it. So in the log of a run every price call stands
  right after the mark of the successful resolution for the same request and carries
  the service id resolved there.
\<close>

theorem price_call_follows_service_id:
  "(cargo_log (cargo_worker ev w s) = cargo_log s @ lg \<and> CargoCall a r \<in> set lg
    \<longrightarrow> (\<exists>resp u dmin dmax.
           cargo_tasks s ! w = AwaitServiceId a resp
           \<and> service_id_outcome ev resp (heap s a) = Inr (u, dmin, dmax)
           \<and> lg = [ServiceIdResolved a u, CargoCall a r]
           \<and> carries_service_id ev u r
           \<and> service_id (heap (cargo_worker ev w s) a) = Some u))
   \<and> (resolved_before_price ev (cargo_log s)
      \<longrightarrow> resolved_before_price ev (cargo_log (run_cargo_parsing ev sched cargo_requests s)))"
proof (intro conjI impI)
  assume h: "cargo_log (cargo_worker ev w s) = cargo_log s @ lg \<and> CargoCall a r \<in> set lg"
  from cargo_worker_log_cases[of ev w s]
  consider "cargo_log (cargo_worker ev w s) = cargo_log s"
    | b q where "cargo_log (cargo_worker ev w s) = cargo_log s @ [ServiceIdCall b q]"
    | b resp u dmin dmax q where
        "cargo_tasks s ! w = AwaitServiceId b resp"
        "service_id_outcome ev resp (heap s b) = Inr (u, dmin, dmax)"
        "carries_service_id ev u q"
        "service_id (heap (cargo_worker ev w s) b) = Some u"
        "cargo_log (cargo_worker ev w s) = cargo_log s @ [ServiceIdResolved b u, CargoCall b q]"
    by blast
  then show "\<exists>resp u dmin dmax.
           cargo_tasks s ! w = AwaitServiceId a resp
           \<and> service_id_outcome ev resp (heap s a) = Inr (u, dmin, dmax)
           \<and> lg = [ServiceIdResolved a u, CargoCall a r]
           \<and> carries_service_id ev u r
           \<and> service_id (heap (cargo_worker ev w s) a) = Some u"
  proof cases
    case 1
    then show ?thesis using h by simp
  next
    case 2
    then show ?thesis using h by auto
  next
    case 3
    then have "lg = [ServiceIdResolved b u, CargoCall b q]" using h by simp
    then have "b = a" and "q = r" using h by auto
    with 3 \<open>lg = [ServiceIdResolved b u, CargoCall b q]\<close> show ?thesis by blast
  qed
next
  assume "resolved_before_price ev (cargo_log s)"
  then show "resolved_before_price ev (cargo_log (run_cargo_parsing ev sched cargo_requests s))"
    by (simp add: run_cargo_parsing_def cargo_loop_resolved_before_price)
qed

theorem price_call_follows_service_id_witness:
  "cargo_log (cargo_worker cargo_env 0 awaiting_tariffs)
     = cargo_log awaiting_tariffs @ [ServiceIdResolved 0 (UUID 3), CargoCall 0 price_request]
   \<and> CargoCall 0 price_request \<in> set [ServiceIdResolved 0 (UUID 3), CargoCall 0 price_request]
   \<and> carries_service_id cargo_env (UUID 3) price_request
   \<and> service_id (heap (cargo_worker cargo_env 0 awaiting_tariffs) 0) = Some (UUID 3)
   \<and> resolved_before_price cargo_env (cargo_log fresh_parser)
   \<and> resolved_before_price cargo_env
       (cargo_log (run_cargo_parsing cargo_env [0, 0, 0] [0] fresh_parser))"
proof -
  have h1: "cargo_log (cargo_worker cargo_env 0 awaiting_tariffs)
     = cargo_log awaiting_tariffs @ [ServiceIdResolved 0 (UUID 3), CargoCall 0 price_request]
     \<and> CargoCall 0 price_request \<in> set [ServiceIdResolved 0 (UUID 3), CargoCall 0 price_request]"
    by code_simp
  have h2: "resolved_before_price cargo_env (cargo_log fresh_parser)"
    by (simp add: fresh_parser_def CargoParserWithToken_init_def)
  from price_call_follows_service_id[of cargo_env 0 awaiting_tariffs
      "[ServiceIdResolved 0 (UUID 3), CargoCall 0 price_request]" 0 price_request]
    h1
  have a: "carries_service_id cargo_env (UUID 3) price_request
      \<and> service_id (heap (cargo_worker cargo_env 0 awaiting_tariffs) 0) = Some (UUID 3)"
    by auto
  from price_call_follows_service_id[of cargo_env 0 fresh_parser "[]" 0 price_request
      "[0, 0, 0]" "[0]"] h2
  have b: "resolved_before_price cargo_env
       (cargo_log (run_cargo_parsing cargo_env [0, 0, 0] [0] fresh_parser))"
    by simp
  from h1 h2 a b show ?thesis by simp
qed


section \<open>Every request is processed\<close>

text \<open>
  A run of a worker never adds work, and it removes some whenever the worker holds a
  request or finds one in the queue.
\<close>

lemma cargo_worker_work:
  assumes "cargo_inv s"
  shows "work (cargo_worker ev w s) \<le> work s
         \<and> (w < length (cargo_tasks s)
              \<and> (cargo_tasks s ! w \<noteq> CargoPolling \<or> cargo_queue s \<noteq> [])
            \<longrightarrow> work (cargo_worker ev w s) < work s)"
  using assms
proof (cases rule: cargo_worker_cases[of s ev w])
  case sleep
  then show ?thesis by auto
next
  case (take_fail a rest e)
  from sum_list_map_update[OF take_fail(1), of task_work CargoPolling] take_fail(2)
  have "sum_list (map task_work ((cargo_tasks s)[w := CargoPolling]))
          = sum_list (map task_work (cargo_tasks s))"
    by simp
  then show ?thesis using take_fail by (simp add: work_def)
next
  case (take_send a rest body)
  from sum_list_map_update[OF take_send(1), of task_work "AwaitServiceId a x" for x] take_send(2)
  have "\<And>x. sum_list (map task_work ((cargo_tasks s)[w := AwaitServiceId a x]))
           = sum_list (map task_work (cargo_tasks s)) + 2"
    by simp
  then show ?thesis using take_send by (simp add: work_def)
next
  case (svc_fail a resp e)
  from sum_list_map_update[OF svc_fail(1), of task_work CargoPolling] svc_fail(2)
  have "sum_list (map task_work ((cargo_tasks s)[w := CargoPolling])) + 2
          = sum_list (map task_work (cargo_tasks s))"
    by simp
  then show ?thesis using svc_fail by (simp add: work_def)
next
  case (svc_ok a resp u dmin dmax r)
  let ?t = "AwaitCargo a (http ev (event_requests (cargo_log s @ [ServiceIdResolved a u])) r)"
  from sum_list_map_update[OF svc_ok(1), of task_work ?t] svc_ok(2)
  have "sum_list (map task_work ((cargo_tasks s)[w := ?t])) + 1
           = sum_list (map task_work (cargo_tasks s))"
    by simp
  from this[symmetric] show ?thesis using svc_ok(5) by (simp add: work_def)
next
  case (cargo_fail a resp e)
  from sum_list_map_update[OF cargo_fail(1), of task_work CargoPolling] cargo_fail(2)
  have "sum_list (map task_work ((cargo_tasks s)[w := CargoPolling])) + 1
          = sum_list (map task_work (cargo_tasks s))"
    by simp
  from this[symmetric] show ?thesis using cargo_fail by (simp add: work_def)
next
  case (cargo_ok a resp route)
  from sum_list_map_update[OF cargo_ok(1), of task_work CargoPolling] cargo_ok(2)
  have "sum_list (map task_work ((cargo_tasks s)[w := CargoPolling])) + 1
          = sum_list (map task_work (cargo_tasks s))"
    by simp
  from this[symmetric] show ?thesis using cargo_ok by (simp add: work_def)
qed

lemma cargo_worker_idle:
  assumes "\<not> (w < length (cargo_tasks s)
             \<and> (cargo_tasks s ! w \<noteq> CargoPolling \<or> cargo_queue s \<noteq> []))"
  shows "cargo_worker ev w s = s"
  using assms by (auto simp: cargo_worker_def)

lemma cargo_loop_done: "cargo_unfinished s = 0 \<Longrightarrow> cargo_loop ev sched s = s"
  by (cases sched) simp_all

lemma cargo_loop_append:
  "cargo_loop ev (r1 @ r2) s = cargo_loop ev r2 (cargo_loop ev r1 s)"
  by (induction r1 arbitrary: s) (simp_all add: cargo_loop_done)

lemma cargo_loop_work_le:
  "cargo_inv s \<Longrightarrow> work (cargo_loop ev sched s) \<le> work s"
proof (induction sched arbitrary: s)
  case Nil
  then show ?case by simp
next
  case (Cons w sched)
  have "work (cargo_loop ev sched (cargo_worker ev w s)) \<le> work (cargo_worker ev w s)"
    using Cons.prems by (intro Cons.IH cargo_worker_inv)
  also have "\<dots> \<le> work s" using cargo_worker_work[OF Cons.prems, of ev w] by simp
  finally show ?case by simp
qed

text \<open>A round that runs a worker with something to do ends the batch or removes work.\<close>

lemma cargo_round_progress:
  "cargo_inv s \<Longrightarrow>
   \<exists>w \<in> set r. w < length (cargo_tasks s)
                \<and> (cargo_tasks s ! w \<noteq> CargoPolling \<or> cargo_queue s \<noteq> []) \<Longrightarrow>
   cargo_unfinished s = 0 \<or> work (cargo_loop ev r s) < work s"
proof (induction r arbitrary: s)
  case Nil
  then show ?case by simp
next
  case (Cons w' r)
  show ?case
  proof (cases "cargo_unfinished s = 0")
    case True
    then show ?thesis by simp
  next
    case False
    show ?thesis
    proof (cases "w' < length (cargo_tasks s)
                  \<and> (cargo_tasks s ! w' \<noteq> CargoPolling \<or> cargo_queue s \<noteq> [])")
      case True
      then have "work (cargo_worker ev w' s) < work s"
        using cargo_worker_work[OF Cons.prems(1), of ev w'] by simp
      moreover have "work (cargo_loop ev r (cargo_worker ev w' s)) \<le> work (cargo_worker ev w' s)"
        using Cons.prems(1) by (intro cargo_loop_work_le cargo_worker_inv)
      ultimately show ?thesis using False by simp
    next
      case idle: False
      then have same: "cargo_worker ev w' s = s" by (rule cargo_worker_idle)
      from Cons.prems(2) idle have "\<exists>w \<in> set r. w < length (cargo_tasks s)
                \<and> (cargo_tasks s ! w \<noteq> CargoPolling \<or> cargo_queue s \<noteq> [])"
        by auto
      from Cons.IH[OF Cons.prems(1) this] False same show ?thesis by simp
    qed
  qed
qed

lemma fair_round_mem: "fair_round k r \<Longrightarrow> w < k \<Longrightarrow> w \<in> set r"
  by (simp add: fair_round_def list_all_iff)

lemma cargo_someone_can_run:
  assumes inv: "cargo_inv s" and un: "cargo_unfinished s \<noteq> 0"
    and k: "0 < length (cargo_tasks s)" and fair: "fair_round (length (cargo_tasks s)) r"
  shows "\<exists>w \<in> set r. w < length (cargo_tasks s)
                \<and> (cargo_tasks s ! w \<noteq> CargoPolling \<or> cargo_queue s \<noteq> [])"
proof (cases "cargo_queue s = []")
  case False
  moreover have "0 \<in> set r" using fair k by (rule fair_round_mem)
  ultimately show ?thesis using k by blast
next
  case True
  then have "in_flight s \<noteq> []" using inv un by (simp add: cargo_inv_def)
  then obtain t where t: "t \<in> set (cargo_tasks s)" and ti: "task_item t \<noteq> []"
    by (auto simp: in_flight_def)
  from t obtain w where w: "w < length (cargo_tasks s)" and tw: "cargo_tasks s ! w = t"
    by (auto simp: in_set_conv_nth)
  have "t \<noteq> CargoPolling" using ti by auto
  moreover have "w \<in> set r" using fair w by (rule fair_round_mem)
  ultimately show ?thesis using w tw by blast
qed

lemma task_work_zero: "task_work t = 0 \<Longrightarrow> task_item t = []"
  by (cases t) simp_all

lemma work_zero_done:
  assumes "cargo_inv s" and "work s = 0"
  shows "cargo_unfinished s = 0"
proof -
  have q: "cargo_queue s = []" using assms(2) by (simp add: work_def)
  have "\<forall>t \<in> set (cargo_tasks s). task_work t = 0" using assms(2) by (simp add: work_def)
  then have "\<forall>t \<in> set (cargo_tasks s). task_item t = []"
    by (auto dest: task_work_zero)
  then have "in_flight s = []" by (simp add: in_flight_def)
  with q assms(1) show ?thesis by (simp add: cargo_inv_def)
qed

text \<open>With at least one worker, a fair schedule of as many rounds as there is work ends the batch.\<close>

lemma cargo_fair_rounds_done:
  "cargo_inv s \<Longrightarrow> 0 < length (cargo_tasks s) \<Longrightarrow>
   fair_rounds (length (cargo_tasks s)) rs \<Longrightarrow> work s \<le> length rs \<Longrightarrow>
   cargo_unfinished (cargo_loop ev (concat rs) s) = 0"
proof (induction rs arbitrary: s)
  case Nil
  then show ?case by (simp add: work_zero_done)
next
  case (Cons r rs)
  let ?s1 = "cargo_loop ev r s"
  show ?case
  proof (cases "cargo_unfinished s = 0")
    case True
    then show ?thesis by (simp add: cargo_loop_done)
  next
    case False
    have fr: "fair_round (length (cargo_tasks s)) r"
      and frs: "fair_rounds (length (cargo_tasks s)) rs"
      using Cons.prems(3) by (simp_all add: fair_rounds_def)
    note p = cargo_loop_preserves[OF Cons.prems(1), of ev r]
    have i1: "cargo_inv ?s1" and len: "length (cargo_tasks ?s1) = length (cargo_tasks s)"
      using p by simp_all
    from cargo_round_progress[OF Cons.prems(1) cargo_someone_can_run[OF Cons.prems(1) False Cons.prems(2) fr], of ev]
      False
    have "work ?s1 < work s" by simp
    then have w1: "work ?s1 \<le> length rs" using Cons.prems(4) by simp
    have "cargo_unfinished (cargo_loop ev (concat rs) ?s1) = 0"
      using Cons.IH[OF i1] len Cons.prems(2) frs w1 by simp
    then show ?thesis by (simp add: cargo_loop_append)
  qed
qed

lemma run_cargo_parsing_done:
  assumes "1 \<le> self_thread_limit s"
    and "fair_rounds (nat (min (int (length cargo_requests)) (self_thread_limit s))) rounds"
    and "3 * length cargo_requests \<le> length rounds"
  shows "cargo_unfinished (run_cargo_parsing ev (concat rounds) cargo_requests s) = 0"
proof (cases "cargo_requests = []")
  case True
  then show ?thesis by (simp add: run_cargo_parsing_def cargo_loop_done)
next
  case False
  let ?k = "nat (min (int (length cargo_requests)) (self_thread_limit s))"
  let ?s0 = "s\<lparr>cargo_queue := cargo_requests, cargo_unfinished := length cargo_requests,
               cargo_tasks := replicate ?k CargoPolling\<rparr>"
  have k: "0 < ?k" using False assms(1) by simp
  have w0: "work ?s0 = 3 * length cargo_requests" by (simp add: work_def replicate_polling)
  have "cargo_unfinished (cargo_loop ev (concat rounds) ?s0) = 0"
    by (rule cargo_fair_rounds_done) (use k w0 assms in \<open>simp_all add: cargo_start_inv\<close>)
  then show ?thesis by (simp add: run_cargo_parsing_def)
qed


section \<open>A request that fails\<close>

lemma retrieve_data_returned:
  assumes "returned (retrieve_data ev sched cargo_requests s) = Some (results, report)"
  shows "cargo_unfinished (run_cargo_parsing ev sched cargo_requests s) = 0
         \<and> results = self_result_list (run_cargo_parsing ev sched cargo_requests s)
         \<and> report = \<lparr>routes_total = int (length cargo_requests),
                      routes_success = self_routes_success (run_cargo_parsing ev sched cargo_requests s),
                      routes_fail = self_routes_fail (run_cargo_parsing ev sched cargo_requests s),
                      routes_fail_list = self_routes_fail_list (run_cargo_parsing ev sched cargo_requests s)\<rparr>"
proof -
  from assms obtain s' where
    "retrieve_data ev sched cargo_requests s = Some (Inr ((results, report), s'))"
    by (auto simp: returned_Some)
  from retrieve_data_Some[OF this] show ?thesis by simp
qed

lemma cargo_worker_failed:
  assumes h: "cargo_inv s \<and> w < length (cargo_tasks s)
      \<and> (cargo_tasks s ! w = AwaitServiceId a resp
           \<and> service_id_outcome ev resp (heap s a) = Inl e
          \<or> cargo_tasks s ! w = AwaitCargo a resp
           \<and> cargo_outcome ev resp a (heap s a) = Inl e)"
  shows "cargo_worker ev w s =
          s\<lparr>self_routes_fail := self_routes_fail s + 1,
            self_routes_fail_list := self_routes_fail_list s @ [a],
            cargo_unfinished := cargo_unfinished s - 1,
            cargo_tasks := (cargo_tasks s)[w := CargoPolling]\<rparr>"
proof -
  from h have inv: "cargo_inv s" and w: "w < length (cargo_tasks s)" by simp_all
  from h have "task_item (cargo_tasks s ! w) = [a]" by auto
  from held_unfinished[OF inv w this] have pos: "cargo_unfinished s \<noteq> 0" .
  from h consider
      "cargo_tasks s ! w = AwaitServiceId a resp" "service_id_outcome ev resp (heap s a) = Inl e"
    | "cargo_tasks s ! w = AwaitCargo a resp" "cargo_outcome ev resp a (heap s a) = Inl e"
    by blast
  then show ?thesis
  proof cases
    case 1
    then show ?thesis using w pos
      by (simp add: cargo_worker_def cargo_task_done_def cargo_except_def service_id_outcome_def)
  next
    case 2
    then show ?thesis using w pos
      by (simp add: cargo_worker_def cargo_task_done_def cargo_except_def cargo_outcome_def)
  qed
qed

lemma cargo_worker_invalid:
  assumes h: "cargo_inv s \<and> w < length (cargo_tasks s) \<and> cargo_tasks s ! w = CargoPolling
      \<and> cargo_queue s = a # rest \<and> RequestForServiceId_body ev (heap s a) = Inl e"
  shows "cargo_worker ev w s =
          s\<lparr>cargo_queue := rest,
            self_routes_fail := self_routes_fail s + 1,
            self_routes_fail_list := self_routes_fail_list s @ [a],
            cargo_unfinished := cargo_unfinished s - 1\<rparr>"
proof -
  from h have pos: "cargo_unfinished s \<noteq> 0" by (simp add: cargo_inv_def)
  have same: "(cargo_tasks s)[w := CargoPolling] = cargo_tasks s"
    using h by (metis list_update_id)
  show ?thesis using h pos same
    by (simp add: cargo_worker_def cargo_task_done_def cargo_except_def Let_def)
qed

text \<open>
  C6. An exception raised for a request, by the validation of the tariff request, by
  the tariff call and its parsing, or by the price call and the extraction of the route,
  ends in the \<open>except\<close> arm of the worker: the fail counter goes up by one, the
  reference to the request object is appended to the fail list, the item is acknowledged
  and the worker is back at the queue; the queue, the results, the success counter and
  the other workers are as before. When a call returns, every request of the batch is
  exactly once in the fail list or the request of a route in the results, and the two
  counters have moved with the two lists. And the call does return: with a thread limit
  of at least one, under every schedule that lets each worker run in each of
  \<open>3 * len(batch)\<close> rounds, whatever the endpoints answer.
\<close>

theorem failed_request_is_isolated:
  "(cargo_inv s \<and> w < length (cargo_tasks s)
      \<and> (cargo_tasks s ! w = AwaitServiceId a resp
           \<and> service_id_outcome ev resp (heap s a) = Inl e
          \<or> cargo_tasks s ! w = AwaitCargo a resp
           \<and> cargo_outcome ev resp a (heap s a) = Inl e)
    \<longrightarrow> cargo_worker ev w s =
          s\<lparr>self_routes_fail := self_routes_fail s + 1,
            self_routes_fail_list := self_routes_fail_list s @ [a],
            cargo_unfinished := cargo_unfinished s - 1,
            cargo_tasks := (cargo_tasks s)[w := CargoPolling]\<rparr>)
   \<and> (cargo_inv s \<and> w < length (cargo_tasks s) \<and> cargo_tasks s ! w = CargoPolling
      \<and> cargo_queue s = a # rest \<and> RequestForServiceId_body ev (heap s a) = Inl e
    \<longrightarrow> cargo_worker ev w s =
          s\<lparr>cargo_queue := rest,
            self_routes_fail := self_routes_fail s + 1,
            self_routes_fail_list := self_routes_fail_list s @ [a],
            cargo_unfinished := cargo_unfinished s - 1\<rparr>)
   \<and> (returned (retrieve_data ev sched cargo_requests s) = Some (results, report)
    \<longrightarrow> mset (map Some (routes_fail_list report)) + mset (map request results)
          = mset (map Some cargo_requests) + mset (map Some (self_routes_fail_list s))
            + mset (map request (self_result_list s))
        \<and> routes_fail report - int (length (routes_fail_list report))
            = self_routes_fail s - int (length (self_routes_fail_list s))
        \<and> routes_success report - int (length results)
            = self_routes_success s - int (length (self_result_list s)))
   \<and> (1 \<le> self_thread_limit s
      \<and> fair_rounds (nat (min (int (length cargo_requests)) (self_thread_limit s))) rounds
      \<and> 3 * length cargo_requests \<le> length rounds
    \<longrightarrow> (\<exists>results report.
           returned (retrieve_data ev (concat rounds) cargo_requests s) = Some (results, report)))"
proof (intro conjI impI)
  assume h: "cargo_inv s \<and> w < length (cargo_tasks s)
      \<and> (cargo_tasks s ! w = AwaitServiceId a resp
           \<and> service_id_outcome ev resp (heap s a) = Inl e
          \<or> cargo_tasks s ! w = AwaitCargo a resp
           \<and> cargo_outcome ev resp a (heap s a) = Inl e)"
  then show "cargo_worker ev w s =
          s\<lparr>self_routes_fail := self_routes_fail s + 1,
            self_routes_fail_list := self_routes_fail_list s @ [a],
            cargo_unfinished := cargo_unfinished s - 1,
            cargo_tasks := (cargo_tasks s)[w := CargoPolling]\<rparr>"
    by (rule cargo_worker_failed)
next
  assume h: "cargo_inv s \<and> w < length (cargo_tasks s) \<and> cargo_tasks s ! w = CargoPolling
      \<and> cargo_queue s = a # rest \<and> RequestForServiceId_body ev (heap s a) = Inl e"
  then show "cargo_worker ev w s =
          s\<lparr>cargo_queue := rest,
            self_routes_fail := self_routes_fail s + 1,
            self_routes_fail_list := self_routes_fail_list s @ [a],
            cargo_unfinished := cargo_unfinished s - 1\<rparr>"
    by (rule cargo_worker_invalid)
next
  assume h: "returned (retrieve_data ev sched cargo_requests s) = Some (results, report)"
  let ?s1 = "run_cargo_parsing ev sched cargo_requests s"
  note r = retrieve_data_returned[OF h]
  note p = run_cargo_parsing_preserves[of ev sched cargo_requests s]
  have fin: "cargo_unfinished ?s1 = 0" using r by simp
  have inv: "cargo_inv ?s1" using p by simp
  from fin inv have q: "cargo_queue ?s1 = []" and f: "in_flight ?s1 = []"
    by (simp_all add: cargo_inv_def)
  have acc: "accounted ?s1 = mset (map Some cargo_requests) + mset (map Some (self_routes_fail_list s))
         + mset (map request (self_result_list s))"
    using p by simp
  have cnt: "counted ?s1 = (self_routes_success s - int (length (self_result_list s)),
          self_routes_fail s - int (length (self_routes_fail_list s)),
          self_routes_success s + self_routes_fail s + int (length cargo_requests))"
    using p by simp
  show "mset (map Some (routes_fail_list report)) + mset (map request results)
          = mset (map Some cargo_requests) + mset (map Some (self_routes_fail_list s))
            + mset (map request (self_result_list s))"
    using acc q f r by (simp add: accounted_def)
  show "routes_fail report - int (length (routes_fail_list report))
            = self_routes_fail s - int (length (self_routes_fail_list s))"
    using cnt r by (simp add: counted_def)
  show "routes_success report - int (length results)
            = self_routes_success s - int (length (self_result_list s))"
    using cnt r by (simp add: counted_def)
next
  assume h: "1 \<le> self_thread_limit s
      \<and> fair_rounds (nat (min (int (length cargo_requests)) (self_thread_limit s))) rounds
      \<and> 3 * length cargo_requests \<le> length rounds"
  then have "cargo_unfinished (run_cargo_parsing ev (concat rounds) cargo_requests s) = 0"
    using run_cargo_parsing_done[of s cargo_requests rounds ev] by simp
  from retrieve_data_returns[OF this]
  show "\<exists>results report.
           returned (retrieve_data ev (concat rounds) cargo_requests s) = Some (results, report)"
    by (auto simp: returned_Some)
qed

theorem failed_request_is_isolated_witness:
  "cargo_inv one_failing \<and> 0 < length (cargo_tasks one_failing)
   \<and> cargo_tasks one_failing ! 0 = AwaitServiceId 0 (Inl ClientError)
   \<and> service_id_outcome flaky_env (Inl ClientError) (heap one_failing 0) = Inl ClientError
   \<and> self_routes_fail (cargo_worker flaky_env 0 one_failing) = 1
   \<and> self_routes_fail_list (cargo_worker flaky_env 0 one_failing) = [0]
   \<and> cargo_tasks (cargo_worker flaky_env 0 one_failing) ! 1 = cargo_tasks one_failing ! 1
   \<and> cargo_inv no_package \<and> cargo_tasks no_package ! 0 = CargoPolling
   \<and> cargo_queue no_package = 0 # [1]
   \<and> RequestForServiceId_body flaky_env (heap no_package 0) = Inl ValidationError
   \<and> cargo_queue (cargo_worker flaky_env 0 no_package) = [1]
   \<and> self_routes_fail_list (cargo_worker flaky_env 0 no_package) = [0]
   \<and> returned (retrieve_data flaky_env (concat six_rounds) [0, 1] fresh_parser)
       = Some ([express_route 1],
               \<lparr>routes_total = 2, routes_success = 1, routes_fail = 1, routes_fail_list = [0]\<rparr>)
   \<and> mset (map Some [0]) + mset (map request [express_route 1]) = mset (map Some [0, 1::nat])
   \<and> 1 \<le> self_thread_limit fresh_parser
   \<and> fair_rounds (nat (min (int (length [0::nat, 1])) (self_thread_limit fresh_parser))) six_rounds
   \<and> 3 * length [0::nat, 1] \<le> length six_rounds"
proof -
  have a1: "cargo_inv one_failing \<and> 0 < length (cargo_tasks one_failing)
      \<and> cargo_tasks one_failing ! 0 = AwaitServiceId 0 (Inl ClientError)
      \<and> service_id_outcome flaky_env (Inl ClientError) (heap one_failing 0) = Inl ClientError"
    by code_simp
  have a2: "self_routes_fail one_failing = 0 \<and> self_routes_fail_list one_failing = []
      \<and> length (cargo_tasks one_failing) = 2"
    by code_simp
  have b1: "cargo_inv no_package \<and> 0 < length (cargo_tasks no_package)
      \<and> cargo_tasks no_package ! 0 = CargoPolling \<and> cargo_queue no_package = 0 # [1]
      \<and> RequestForServiceId_body flaky_env (heap no_package 0) = Inl ValidationError"
    by code_simp
  have b2: "self_routes_fail_list no_package = []"
    by code_simp
  have c1: "returned (retrieve_data flaky_env (concat six_rounds) [0, 1] fresh_parser)
       = Some ([express_route 1],
               \<lparr>routes_total = 2, routes_success = 1, routes_fail = 1, routes_fail_list = [0]\<rparr>)"
    by code_simp
  have d1: "1 \<le> self_thread_limit fresh_parser
      \<and> fair_rounds (nat (min (int (length [0::nat, 1])) (self_thread_limit fresh_parser))) six_rounds
      \<and> 3 * length [0::nat, 1] \<le> length six_rounds"
    by code_simp
  note t = failed_request_is_isolated
  from t[where s = one_failing and w = 0 and a = 0 and resp = "Inl ClientError"
      and ev = flaky_env and e = ClientError] a1
  have a3: "cargo_worker flaky_env 0 one_failing =
      one_failing\<lparr>self_routes_fail := self_routes_fail one_failing + 1,
        self_routes_fail_list := self_routes_fail_list one_failing @ [0],
        cargo_unfinished := cargo_unfinished one_failing - 1,
        cargo_tasks := (cargo_tasks one_failing)[0 := CargoPolling]\<rparr>"
    by blast
  from t[where s = no_package and w = 0 and a = 0 and rest = "[1]"
      and ev = flaky_env and e = ValidationError] b1
  have b3: "cargo_worker flaky_env 0 no_package =
      no_package\<lparr>cargo_queue := [1],
        self_routes_fail := self_routes_fail no_package + 1,
        self_routes_fail_list := self_routes_fail_list no_package @ [0],
        cargo_unfinished := cargo_unfinished no_package - 1\<rparr>"
    by blast
  from t[where s = fresh_parser and ev = flaky_env and sched = "concat six_rounds"
      and cargo_requests = "[0, 1]" and results = "[express_route 1]"
      and report = "\<lparr>routes_total = 2, routes_success = 1, routes_fail = 1, routes_fail_list = [0]\<rparr>"]
    c1
  have c2: "mset (map Some [0]) + mset (map request [express_route 1]) = mset (map Some [0, 1::nat])"
    by (simp add: fresh_parser_def CargoParserWithToken_init_def)
  show ?thesis
    using a1 b1 c1 c2 d1 by (simp add: a3 b3 a2 b2)
qed


section \<open>The number of workers\<close>

lemma city_worker_length:
  "length (city_tasks (city_worker ev w s)) = length (city_tasks s)"
proof (cases "w < length (city_tasks s)")
  case False
  then show ?thesis by (simp add: city_worker_def)
next
  case True
  show ?thesis
  proof (cases "city_tasks s ! w")
    case CityPolling
    then show ?thesis using True
      by (cases "city_queue s") (simp_all add: city_worker_def city_task_done_def Let_def)
  next
    case (AwaitParseCity n resp)
    then show ?thesis using True
      by (simp add: city_worker_def city_task_done_def city_success_def city_except_def
          split: sum.splits)
  next
    case (CityCrashed e)
    then show ?thesis using True by (simp add: city_worker_def)
  qed
qed

lemma city_loop_length:
  "length (city_tasks (city_loop ev sched s)) = length (city_tasks s)"
  by (induction sched arbitrary: s) (simp_all add: city_worker_length)

lemma run_city_parsing_workers:
  "length (city_tasks (run_city_parsing ev sched cities c))
     = nat (min (city_thread_limit c) (int (length cities)))"
  by (simp add: run_city_parsing_def city_loop_length min.commute)

lemma run_cargo_parsing_workers:
  "length (cargo_tasks (run_cargo_parsing ev sched cargo_requests s))
     = nat (min (self_thread_limit s) (int (length cargo_requests)))"
  using run_cargo_parsing_preserves[of ev sched cargo_requests s] by (simp add: min.commute)

lemma city_loop_done: "city_unfinished s = 0 \<Longrightarrow> city_loop ev sched s = s"
  by (cases sched) simp_all

text \<open>
  C8 as stated fails in two places. A negative thread limit gives no worker, not
  \<open>min(thread_limit, len(items))\<close> workers. And the cargo parser does not reset its
  result list and counters: a batch of zero items given to a parser that has priced one
  request returns that route and a success count of one.
\<close>

theorem workers_and_empty_batch_differ:
  "length (cargo_tasks (run_cargo_parsing cargo_env [] [0, 1, 2]
             (fresh_parser\<lparr>self_thread_limit := - 1\<rparr>))) = 0
   \<and> min (self_thread_limit (fresh_parser\<lparr>self_thread_limit := - 1\<rparr>))
         (int (length [0::nat, 1, 2])) = - 1
   \<and> map_option snd
       (retrieve_data_twice cargo_env [0, 0, 0] [0] cargo_env [] [] fresh_parser)
     = Some ([express_route 0],
             \<lparr>routes_total = 0, routes_success = 1, routes_fail = 0, routes_fail_list = []\<rparr>)"
  by code_simp

text \<open>
  C8, amended. Both parsers create \<open>min(thread_limit, len(items))\<close> workers when the
  thread limit is not negative, and none when it is negative; a batch of 3 items with
  a limit of 10 gets exactly 3 workers. A batch of zero items creates no worker and
  returns at once, under every schedule: the city parser returns an empty result and a
  report that counts nothing; the cargo parser returns the result list, the counts and
  the fail list its earlier calls have left, with a total of zero, so a parser that has
  not processed anything returns an empty result and a report whose total, success and
  fail counts are all zero.
\<close>

theorem workers_are_min_of_limit_and_items:
  "length (cargo_tasks (run_cargo_parsing ev sched cargo_requests s))
     = nat (min (self_thread_limit s) (int (length cargo_requests)))
   \<and> length (city_tasks (run_city_parsing ev sched cities c))
     = nat (min (city_thread_limit c) (int (length cities)))
   \<and> (0 \<le> self_thread_limit s
      \<longrightarrow> int (length (cargo_tasks (run_cargo_parsing ev sched cargo_requests s)))
            = min (self_thread_limit s) (int (length cargo_requests)))
   \<and> (0 \<le> city_thread_limit c
      \<longrightarrow> int (length (city_tasks (run_city_parsing ev sched cities c)))
            = min (city_thread_limit c) (int (length cities)))
   \<and> (self_thread_limit s = 10 \<and> length cargo_requests = 3
      \<longrightarrow> length (cargo_tasks (run_cargo_parsing ev sched cargo_requests s)) = 3)
   \<and> (city_thread_limit c = 10 \<and> length cities = 3
      \<longrightarrow> length (city_tasks (run_city_parsing ev sched cities c)) = 3)
   \<and> cargo_tasks (run_cargo_parsing ev sched [] s) = []
   \<and> city_tasks (run_city_parsing ev sched [] c) = []
   \<and> returned (retrieve_data ev sched [] s)
       = Some (self_result_list s,
               \<lparr>routes_total = 0, routes_success = self_routes_success s,
                routes_fail = self_routes_fail s,
                routes_fail_list = self_routes_fail_list s\<rparr>)
   \<and> returned (retrieve_data ev sched []
                 (CargoParserWithToken_init token thread_limit cargo_url service_id_url
                    default_headers h))
       = Some ([], \<lparr>routes_total = 0, routes_success = 0, routes_fail = 0,
                    routes_fail_list = []\<rparr>)
   \<and> returned (get_cities_info ev sched [] c)
       = Some ([], \<lparr>cities_total = 0, cities_success = 0, cities_fail = 0,
                    cities_fail_items = self_cities_fail_list c\<rparr>)"
proof -
  have cw: "length (cargo_tasks (run_cargo_parsing ev sched cargo_requests s))
     = nat (min (self_thread_limit s) (int (length cargo_requests)))"
    by (rule run_cargo_parsing_workers)
  have tw: "length (city_tasks (run_city_parsing ev sched cities c))
     = nat (min (city_thread_limit c) (int (length cities)))"
    by (rule run_city_parsing_workers)
  have ce: "\<And>s'. run_cargo_parsing ev sched [] s'
      = s'\<lparr>cargo_queue := [], cargo_unfinished := 0, cargo_tasks := []\<rparr>"
    by (simp add: run_cargo_parsing_def cargo_loop_done)
  have te: "\<And>c'. run_city_parsing ev sched [] c'
      = c'\<lparr>city_queue := [], city_unfinished := 0, city_tasks := []\<rparr>"
    by (simp add: run_city_parsing_def city_loop_done)
  have r1: "\<And>s'. returned (retrieve_data ev sched [] s')
       = Some (self_result_list s',
               \<lparr>routes_total = 0, routes_success = self_routes_success s',
                routes_fail = self_routes_fail s',
                routes_fail_list = self_routes_fail_list s'\<rparr>)"
    by (simp add: retrieve_data_def ce RequestsReport_init_ok returned_def)
  have r2: "returned (get_cities_info ev sched [] c)
       = Some ([], \<lparr>cities_total = 0, cities_success = 0, cities_fail = 0,
                    cities_fail_items = self_cities_fail_list c\<rparr>)"
    by (simp add: get_cities_info_def te CitiesReport_init_def kw_int_def kw_strs_def
        returned_def)
  show ?thesis
    using cw tw r2 by (simp add: ce te r1 CargoParserWithToken_init_def)
qed

theorem workers_are_min_of_limit_and_items_witness:
  "0 \<le> self_thread_limit fresh_parser
   \<and> int (length (cargo_tasks (run_cargo_parsing cargo_env [0, 1, 2] [0, 1, 2] fresh_parser)))
       = min (self_thread_limit fresh_parser) (int (length [0::nat, 1, 2]))
   \<and> 0 \<le> city_thread_limit (CityParser_init [] 10)
   \<and> int (length (city_tasks (run_city_parsing city_env [0, 1]
                                  [''Moscow'', ''Kazan'', ''Omsk''] (CityParser_init [] 10))))
       = min (city_thread_limit (CityParser_init [] 10))
             (int (length [''Moscow'', ''Kazan'', ''Omsk'']))
   \<and> self_thread_limit fresh_parser = 10 \<and> length [0::nat, 1, 2] = 3
   \<and> length (cargo_tasks (run_cargo_parsing cargo_env [0, 1, 2] [0, 1, 2] fresh_parser)) = 3
   \<and> city_thread_limit (CityParser_init [] 10) = 10
   \<and> length [''Moscow'', ''Kazan'', ''Omsk''] = 3
   \<and> length (city_tasks (run_city_parsing city_env [0, 1]
                            [''Moscow'', ''Kazan'', ''Omsk''] (CityParser_init [] 10))) = 3"
proof -
  have l: "self_thread_limit fresh_parser = 10"
    by (simp add: fresh_parser_def CargoParserWithToken_init_def)
  have c: "city_thread_limit (CityParser_init [] 10) = 10"
    by (simp add: CityParser_init_def)
  from workers_are_min_of_limit_and_items[where s = fresh_parser and ev = cargo_env
      and sched = "[0, 1, 2]" and cargo_requests = "[0, 1, 2]"] l
  have a: "length (cargo_tasks (run_cargo_parsing cargo_env [0, 1, 2] [0, 1, 2] fresh_parser)) = 3"
    by simp
  from workers_are_min_of_limit_and_items[where c = "CityParser_init [] 10" and ev = city_env
      and sched = "[0, 1]" and cities = "[''Moscow'', ''Kazan'', ''Omsk'']"] c
  have b: "length (city_tasks (run_city_parsing city_env [0, 1]
                            [''Moscow'', ''Kazan'', ''Omsk''] (CityParser_init [] 10))) = 3"
    by simp
  show ?thesis using l c a b by simp
qed


end
